theory Spec2Isabelle
  imports Main "HOL-Library.AList" "HOL-Library.Sublist"
begin

section \<open>Python values, exceptions and the built-ins the module relies on\<close>

text \<open>
  The module is \<^verbatim>\<open>wsgi_intercept/__init__.py\<close>, read under Python 3:
  \<^verbatim>\<open>bytes\<close> is a list of 8-bit characters, \<^verbatim>\<open>str\<close> is a list of Unicode code
  points. Dynamically typed arguments (hosts, ports, header names and values, the items
  a handler yields) are values of \<open>pyval\<close>. The diagnostic printing guarded by
  \<^verbatim>\<open>debuglevel\<close> (0 by default) has no effect on any result and is left out.
\<close>

type_synonym bytes = "char list"
type_synonym ustr = "nat list"

datatype pyval = PNone | PInt int | PStr ustr | PBytes bytes

datatype exc =
    StopIteration | TypeError | ValueError | AttributeError
  | UnicodeEncodeError | IndexError | AppError

abbreviation LF :: char where "LF \<equiv> CHR 0x0A"

text \<open>\<^verbatim>\<open>bytes.decode('ISO-8859-1')\<close>: every byte is the code point of the same number.\<close>

definition decode_latin1 :: "bytes \<Rightarrow> ustr" where
  "decode_latin1 bs = map of_char bs"

text \<open>
  \<^verbatim>\<open>str.encode('utf-8')\<close>: one to four bytes per code point; a surrogate
  (U+D800 to U+DFFF) raises \<^verbatim>\<open>UnicodeEncodeError\<close>. Code points of a Python
  \<^verbatim>\<open>str\<close> are at most U+10FFFF.
\<close>

definition utf8_char :: "nat \<Rightarrow> exc + bytes" where
  "utf8_char n =
     (if n < 0x80 then Inr [char_of n]
      else if n < 0x800 then Inr [char_of (0xC0 + n div 64), char_of (0x80 + n mod 64)]
      else if n < 0x10000 then
        (if 0xD800 \<le> n \<and> n \<le> 0xDFFF then Inl UnicodeEncodeError
         else Inr [char_of (0xE0 + n div 4096), char_of (0x80 + (n div 64) mod 64),
                   char_of (0x80 + n mod 64)])
      else Inr [char_of (0xF0 + n div 262144), char_of (0x80 + (n div 4096) mod 64),
                char_of (0x80 + (n div 64) mod 64), char_of (0x80 + n mod 64)])"

fun encode_utf8 :: "ustr \<Rightarrow> exc + bytes" where
  "encode_utf8 [] = Inr []"
| "encode_utf8 (n # ns) =
     (case utf8_char n of
        Inl e \<Rightarrow> Inl e
      | Inr b \<Rightarrow> (case encode_utf8 ns of Inl e \<Rightarrow> Inl e | Inr bs \<Rightarrow> Inr (b @ bs)))"

text \<open>Truth value of an object in a condition (\<^verbatim>\<open>if generator_data:\<close>).\<close>

fun truthy :: "pyval \<Rightarrow> bool" where
  "truthy PNone = False"
| "truthy (PInt n) = (n \<noteq> 0)"
| "truthy (PStr s) = (s \<noteq> [])"
| "truthy (PBytes b) = (b \<noteq> [])"

text \<open>
  \<^verbatim>\<open>int(x)\<close>. An integer is returned as it is; \<^verbatim>\<open>None\<close> raises
  \<^verbatim>\<open>TypeError\<close>; a \<^verbatim>\<open>str\<close> or \<^verbatim>\<open>bytes\<close> is read as a decimal literal:
  surrounding whitespace, an optional sign, digits with single underscores between them,
  anything else raising \<^verbatim>\<open>ValueError\<close>. Only ASCII whitespace and ASCII digits
  are recognised here.
\<close>

definition is_space :: "nat \<Rightarrow> bool" where
  "is_space c = (c = 32 \<or> (9 \<le> c \<and> c \<le> 13))"

definition strip_ws :: "nat list \<Rightarrow> nat list" where
  "strip_ws s = rev (dropWhile is_space (rev (dropWhile is_space s)))"

fun parse_digits :: "nat list \<Rightarrow> bool \<Rightarrow> int \<Rightarrow> int option" where
  "parse_digits [] prev acc = (if prev then Some acc else None)"
| "parse_digits (c # cs) prev acc =
     (if 48 \<le> c \<and> c \<le> 57 then parse_digits cs True (10 * acc + int (c - 48))
      else if c = 95 \<and> prev then parse_digits cs False acc
      else None)"

definition int_literal :: "nat list \<Rightarrow> exc + int" where
  "int_literal s =
     (let t = strip_ws s;
          (neg, ds) = (case t of
                         c # cs \<Rightarrow> if c = 45 then (True, cs)
                                   else if c = 43 then (False, cs) else (False, t)
                       | [] \<Rightarrow> (False, t))
      in case parse_digits ds False 0 of
           None \<Rightarrow> Inl ValueError
         | Some n \<Rightarrow> Inr (if neg then - n else n))"

fun py_int :: "pyval \<Rightarrow> exc + int" where
  "py_int PNone = Inl TypeError"
| "py_int (PInt n) = Inr n"
| "py_int (PStr s) = int_literal s"
| "py_int (PBytes b) = int_literal (map of_char b)"

section \<open>The request context, the handler and the fake socket\<close>

text \<open>
  The \<^verbatim>\<open>environ\<close> dictionary built by \<^verbatim>\<open>make_environ\<close>. The keys the function
  sets by name are fields (an optional key is an \<open>option\<close>); the keys
  \<^verbatim>\<open>'HTTP_' + name\<close> made from the other request headers are the dictionary
  \<open>http_headers\<close>, in insertion order. No header name yields one of the fixed keys:
  a name whose upper-case form is \<^verbatim>\<open>COOKIE\<close> is a cookie header and never reaches
  the generic branch.
\<close>

record environ =
  wsgi_version :: "nat \<times> nat"
  wsgi_url_scheme :: ustr
  wsgi_input :: bytes
  wsgi_errors :: bytes
  wsgi_multithread :: int
  wsgi_multiprocess :: int
  wsgi_run_once :: int
  PATH_INFO :: ustr
  REMOTE_ADDR :: ustr
  REQUEST_METHOD :: ustr
  SCRIPT_NAME :: ustr
  SERVER_NAME :: pyval
  SERVER_PORT :: pyval
  SERVER_PROTOCOL :: ustr
  QUERY_STRING :: "ustr option"
  CONTENT_TYPE :: "ustr option"
  CONTENT_LENGTH :: "ustr option"
  HTTP_COOKIE :: "ustr option"
  http_headers :: "(ustr \<times> ustr) list"

text \<open>
  A WSGI application is opaque code. What the fake socket can observe of one call
  \<^verbatim>\<open>app(environ, start_response)\<close> is: the calls the application makes to
  \<^verbatim>\<open>start_response\<close> and to the \<^verbatim>\<open>write_fn\<close> it returns, while the call runs
  (\<open>on_call\<close>) and during each \<^verbatim>\<open>next()\<close> on the returned iterable (the events of
  pull number \<open>i\<close>); what each \<^verbatim>\<open>next()\<close> yields or raises (exhaustion is raising
  \<^verbatim>\<open>StopIteration\<close>); and whether the returned object has a \<^verbatim>\<open>close\<close> attribute.
  The sequence of pulls may be infinite. An exception raised by \<^verbatim>\<open>start_response\<close>
  inside the application is taken to propagate out of the application.
\<close>

datatype event = StartResponse pyval "(pyval \<times> pyval) list" | WriteFn pyval

datatype outcome = Yield pyval | Raise exc

record app_result =
  on_call :: "event list"
  pulls :: "nat \<Rightarrow> event list \<times> outcome"
  has_close :: bool

text \<open>
  What an application factory returns: \<^verbatim>\<open>None\<close>, or an object with a truth value
  and a call behaviour.
\<close>

datatype app_obj = NoneObj | AppObj bool "environ \<Rightarrow> app_result"

fun app_truthy :: "app_obj \<Rightarrow> bool" where
  "app_truthy NoneObj = False"
| "app_truthy (AppObj t f) = t"

text \<open>
  \<^verbatim>\<open>class wsgi_fake_socket\<close>. The \<^verbatim>\<open>BytesIO\<close> objects \<^verbatim>\<open>inp\<close> and
  \<^verbatim>\<open>output\<close> (the field \<open>output'\<close>) are only ever written at their end and read
  whole (\<^verbatim>\<open>getvalue\<close>), so each is the byte sequence written so far.
\<close>

record wsgi_fake_socket =
  app :: app_obj
  host :: pyval
  port :: pyval
  script_name :: ustr
  inp :: bytes
  write_results :: "pyval list"
  output' :: bytes

definition init_socket :: "app_obj \<Rightarrow> pyval \<Rightarrow> pyval \<Rightarrow> ustr \<Rightarrow> wsgi_fake_socket" where
  "init_socket a h p sn =
     \<lparr>app = a, host = h, port = p, script_name = sn,
      inp = [], write_results = [], output' = []\<rparr>"

section \<open>The registry of intercepts\<close>

text \<open>
  \<^verbatim>\<open>_wsgi_intercept\<close>: a dictionary from \<^verbatim>\<open>(host, port)\<close> to
  \<^verbatim>\<open>(app_create_fn, script_name)\<close>. The global is passed and returned explicitly.
\<close>

type_synonym registry = "(pyval \<times> pyval) \<rightharpoonup> ((unit \<Rightarrow> app_obj) \<times> ustr)"

definition add_wsgi_intercept ::
  "pyval \<Rightarrow> pyval \<Rightarrow> (unit \<Rightarrow> app_obj) \<Rightarrow> ustr \<Rightarrow> registry \<Rightarrow> registry" where
  "add_wsgi_intercept h p app_create_fn sn reg = reg((h, p) \<mapsto> (app_create_fn, sn))"

text \<open>
  \<^verbatim>\<open>remove_wsgi_intercept(*args)\<close>: no argument empties the registry; otherwise the key
  is \<^verbatim>\<open>(args[0], args[1])\<close>, so a single argument raises \<^verbatim>\<open>IndexError\<close> and
  arguments after the second are ignored.
\<close>

fun remove_wsgi_intercept :: "pyval list \<Rightarrow> registry \<Rightarrow> exc + registry" where
  "remove_wsgi_intercept [] reg = Inr Map.empty"
| "remove_wsgi_intercept [a] reg = Inl IndexError"
| "remove_wsgi_intercept (a # b # rest) reg =
     (if (a, b) \<in> dom reg then Inr (reg |` (- {(a, b)})) else Inr reg)"

section \<open>The connection interceptor\<close>

text \<open>
  \<^verbatim>\<open>WSGI_HTTPConnection.get_app\<close> (the same text in \<^verbatim>\<open>WSGI_HTTPSConnection\<close>):
  the port is coerced with \<^verbatim>\<open>int\<close>, the key looked up, and the factory called when
  the key is present. The result is the pair \<^verbatim>\<open>(app, script_name)\<close>, both
  \<^verbatim>\<open>None\<close> when the key is absent; \<^verbatim>\<open>script_name\<close> is \<^verbatim>\<open>None\<close> only
  then, when \<^verbatim>\<open>app\<close> is \<^verbatim>\<open>None\<close> too and \<^verbatim>\<open>connect\<close> builds no socket.
\<close>

definition get_app :: "registry \<Rightarrow> pyval \<Rightarrow> pyval \<Rightarrow> exc + (app_obj \<times> ustr option)" where
  "get_app reg h p =
     (case py_int p of
        Inl e \<Rightarrow> Inl e
      | Inr n \<Rightarrow>
          (case reg (h, PInt n) of
             None \<Rightarrow> Inr (NoneObj, None)
           | Some (app_fn, sn) \<Rightarrow> Inr (app_fn (), Some sn)))"

text \<open>
  The connection object: the host and port of \<^verbatim>\<open>HTTPConnection\<close> and its
  \<^verbatim>\<open>sock\<close> attribute. The base class's own \<^verbatim>\<open>connect\<close> is outside this module:
  it is the parameter \<open>real_connect\<close> (\<^verbatim>\<open>HTTPConnection.connect\<close>,
  \<^verbatim>\<open>HTTPSConnection.connect\<close>, or httplib2's \<^verbatim>\<open>_connect\<close>). The \<open>real_connects\<close>
  field is there for a stub connector to count its invocations.
\<close>

datatype sock_obj = NoSock | RealSock | FakeSock wsgi_fake_socket

record conn =
  conn_host :: pyval
  conn_port :: pyval
  sock :: sock_obj
  real_connects :: nat

definition connect :: "registry \<Rightarrow> (conn \<Rightarrow> exc + conn) \<Rightarrow> conn \<Rightarrow> exc + conn" where
  "connect reg real_connect c =
     (case get_app reg (conn_host c) (conn_port c) of
        Inl e \<Rightarrow> Inl e
      | Inr (a, sn) \<Rightarrow>
          if app_truthy a then
            Inr (c\<lparr>sock := FakeSock (init_socket a (conn_host c) (conn_port c)
                                     (case sn of Some s \<Rightarrow> s | None \<Rightarrow> []))\<rparr>)
          else real_connect c)"

text \<open>A stub for the real connector: it counts its invocations and opens a real socket.\<close>

definition stub_connect :: "conn \<Rightarrow> exc + conn" where
  "stub_connect c = Inr (c\<lparr>sock := RealSock, real_connects := Suc (real_connects c)\<rparr>)"

section \<open>The request decoder\<close>

text \<open>
  Helpers for the \<^verbatim>\<open>bytes\<close> and \<^verbatim>\<open>str\<close> methods \<^verbatim>\<open>make_environ\<close> calls.
  \<^verbatim>\<open>readline\<close> returns the bytes up to and including the first line feed (all of
  them when there is none) and leaves the rest; \<^verbatim>\<open>strip\<close> and \<^verbatim>\<open>lstrip\<close> remove
  ASCII whitespace; \<^verbatim>\<open>x.split(sep, 1)\<close> splits at the first separator and
  \<^verbatim>\<open>x.split(sep)\<close> at every one; \<^verbatim>\<open>lower\<close> and \<^verbatim>\<open>upper\<close> change ASCII letters
  only.
\<close>

definition readline :: "bytes \<Rightarrow> bytes \<times> bytes" where
  "readline bs =
     (takeWhile (\<lambda>c. c \<noteq> LF) bs @ take 1 (dropWhile (\<lambda>c. c \<noteq> LF) bs),
      drop 1 (dropWhile (\<lambda>c. c \<noteq> LF) bs))"

definition is_space_byte :: "char \<Rightarrow> bool" where
  "is_space_byte c = is_space (of_char c)"

definition lstrip_bytes :: "bytes \<Rightarrow> bytes" where
  "lstrip_bytes bs = dropWhile is_space_byte bs"

definition strip_bytes :: "bytes \<Rightarrow> bytes" where
  "strip_bytes bs = rev (dropWhile is_space_byte (rev (dropWhile is_space_byte bs)))"

definition split1 :: "'a \<Rightarrow> 'a list \<Rightarrow> 'a list list" where
  "split1 sep xs =
     (if sep \<in> set xs
      then [takeWhile (\<lambda>c. c \<noteq> sep) xs, drop 1 (dropWhile (\<lambda>c. c \<noteq> sep) xs)]
      else [xs])"

fun split_all :: "'a \<Rightarrow> 'a list \<Rightarrow> 'a list list" where
  "split_all sep [] = [[]]"
| "split_all sep (c # cs) =
     (if c = sep then [] # split_all sep cs
      else (case split_all sep cs of
              [] \<Rightarrow> [[c]]
            | w # ws \<Rightarrow> (c # w) # ws))"

definition lower_byte :: "char \<Rightarrow> char" where
  "lower_byte c =
     (let n = (of_char c :: nat) in if 65 \<le> n \<and> n \<le> 90 then char_of (n + 32) else c)"

definition upper_byte :: "char \<Rightarrow> char" where
  "upper_byte c =
     (let n = (of_char c :: nat) in if 97 \<le> n \<and> n \<le> 122 then char_of (n - 32) else c)"

definition join_str :: "ustr \<Rightarrow> ustr list \<Rightarrow> ustr" where
  "join_str sep xs = (case xs of [] \<Rightarrow> [] | y # ys \<Rightarrow> y @ concat (map (\<lambda>z. sep @ z) ys))"

text \<open>The local variables the header loop of \<^verbatim>\<open>make_environ\<close> updates.\<close>

record header_vars =
  hdr_environ :: "(ustr \<times> ustr) list"
  content_type :: "ustr option"
  content_length :: "ustr option"
  cookies :: "ustr list"

definition init_header_vars :: header_vars where
  "init_header_vars =
     \<lparr>hdr_environ = [], content_type = None, content_length = None, cookies = []\<rparr>"

text \<open>
  One turn of the header loop on a line that is not blank:
  \<^verbatim>\<open>k, v = line.strip().split(b':', 1)\<close> raises \<^verbatim>\<open>ValueError\<close> when the line has
  no colon; the value is left-stripped and decoded; the name decides where it goes.
\<close>

definition header_line :: "bytes \<Rightarrow> header_vars \<Rightarrow> exc + header_vars" where
  "header_line line hv =
     (case split1 (CHR '':'') (strip_bytes line) of
        [k, v0] \<Rightarrow>
          (let v = decode_latin1 (lstrip_bytes v0);
               kl = map lower_byte k
           in if kl = ''content-type'' then Inr (hv\<lparr>content_type := Some v\<rparr>)
              else if kl = ''content-length'' then Inr (hv\<lparr>content_length := Some v\<rparr>)
              else if kl = ''cookie'' \<or> kl = ''cookie2'' then
                Inr (hv\<lparr>cookies := cookies hv @ [v]\<rparr>)
              else
                (let h = map (\<lambda>c. if c = CHR ''-'' then CHR ''_'' else c) (map upper_byte k)
                 in Inr (hv\<lparr>hdr_environ :=
                           AList.update (decode_latin1 ''HTTP_'' @ decode_latin1 h) v
                             (hdr_environ hv)\<rparr>)))
      | _ \<Rightarrow> Inl ValueError)"

lemma drop1_shorter: "length xs \<le> n \<Longrightarrow> 0 < n \<Longrightarrow> length (drop 1 xs) < n"
  by (cases xs) auto

lemma readline_rest_shorter:
  "bs \<noteq> [] \<Longrightarrow> length (snd (readline bs)) < length bs"
  unfolding readline_def snd_conv
  by (rule drop1_shorter) (simp_all add: length_dropWhile_le)

text \<open>
  The header loop \<^verbatim>\<open>for line in inp\<close>: it ends at the end of the input or after a
  blank line, and returns the variables with the bytes not yet read.
\<close>

function read_headers :: "bytes \<Rightarrow> header_vars \<Rightarrow> exc + (header_vars \<times> bytes)" where
  "read_headers bs hv =
     (if bs = [] then Inr (hv, [])
      else if strip_bytes (fst (readline bs)) = [] then Inr (hv, snd (readline bs))
      else (case header_line (fst (readline bs)) hv of
              Inl e \<Rightarrow> Inl e
            | Inr hv' \<Rightarrow> read_headers (snd (readline bs)) hv'))"
  by pat_completeness auto
termination
  by (relation "measure (\<lambda>(bs, hv). length bs)") (auto simp: readline_rest_shorter)

text \<open>
  \<^verbatim>\<open>make_environ(inp, host, port, script_name)\<close>. The request line is read and
  decoded first, the headers next, and only then is the request line split at single
  spaces into exactly three fields (\<^verbatim>\<open>ValueError\<close> otherwise). The mount path is
  taken off the URL when the URL starts with it and is replaced by the empty string
  when it does not; what is left is split at the first question mark. Code points:
  32 is the space, 63 the question mark.
\<close>

definition make_environ :: "bytes \<Rightarrow> pyval \<Rightarrow> pyval \<Rightarrow> ustr \<Rightarrow> exc + environ" where
  "make_environ inp0 h p sn =
     (let method_line = decode_latin1 (fst (readline inp0)) in
      case read_headers (snd (readline inp0)) init_header_vars of
        Inl e \<Rightarrow> Inl e
      | Inr (hv, body) \<Rightarrow>
          (case split_all 32 method_line of
             [method, url0, protocol] \<Rightarrow>
               (let sn' = (if \<not> prefix sn url0 then [] else sn);
                    url1 = (if \<not> prefix sn url0 then url0 else drop (length sn) url0);
                    url = split1 63 url1;
                    path_info = (case url of [] \<Rightarrow> [] | x # _ \<Rightarrow> x);
                    query_string = (case url of [_, q] \<Rightarrow> q | _ \<Rightarrow> [])
                in Inr \<lparr>wsgi_version = (1, 0),
                        wsgi_url_scheme = decode_latin1 ''http'',
                        wsgi_input = body,
                        wsgi_errors = [],
                        wsgi_multithread = 0,
                        wsgi_multiprocess = 0,
                        wsgi_run_once = 0,
                        PATH_INFO = path_info,
                        REMOTE_ADDR = decode_latin1 ''127.0.0.1'',
                        REQUEST_METHOD = method,
                        SCRIPT_NAME = sn',
                        SERVER_NAME = h,
                        SERVER_PORT = p,
                        SERVER_PROTOCOL = protocol,
                        QUERY_STRING = (if query_string \<noteq> [] then Some query_string else None),
                        CONTENT_TYPE = (case content_type hv of
                                          Some v \<Rightarrow> if v \<noteq> [] then Some v else None
                                        | None \<Rightarrow> None),
                        CONTENT_LENGTH = (case content_length hv of
                                            Some v \<Rightarrow> if v \<noteq> [] then Some v else None
                                          | None \<Rightarrow> None),
                        HTTP_COOKIE = (if cookies hv \<noteq> []
                                       then Some (join_str (decode_latin1 ''; '') (cookies hv))
                                       else None),
                        http_headers = hdr_environ hv\<rparr>)
           | _ \<Rightarrow> Inl ValueError))"

section \<open>The fake socket's operations\<close>

text \<open>\<^verbatim>\<open>BytesIO.write(data)\<close> at the end of the buffer: anything but bytes raises
  \<^verbatim>\<open>TypeError\<close>.\<close>

fun bio_write :: "bytes \<Rightarrow> pyval \<Rightarrow> exc + bytes" where
  "bio_write buf (PBytes b) = Inr (buf @ b)"
| "bio_write buf _ = Inl TypeError"

text \<open>
  \<^verbatim>\<open>sendall(text)\<close>: the data is written to \<^verbatim>\<open>inp\<close>. When that raises
  \<^verbatim>\<open>TypeError\<close> the \<^verbatim>\<open>except\<close> clause evaluates
  \<^verbatim>\<open>six.binary_type(text.decode('utf-8'))\<close>. Only bytes have a \<^verbatim>\<open>decode\<close> method
  (and \<^verbatim>\<open>bytes(s)\<close> of a \<^verbatim>\<open>str\<close> without an encoding raises \<^verbatim>\<open>TypeError\<close>); every
  other value, a \<^verbatim>\<open>str\<close> among them, raises \<^verbatim>\<open>AttributeError\<close> there. The result
  is the socket with the exception that leaves the call, if any.
\<close>

definition sendall :: "pyval \<Rightarrow> wsgi_fake_socket \<Rightarrow> wsgi_fake_socket \<times> exc option" where
  "sendall text s =
     (case bio_write (inp s) text of
        Inr i \<Rightarrow> (s\<lparr>inp := i\<rparr>, None)
      | Inl _ \<Rightarrow>
          (case text of
             PBytes b \<Rightarrow> (s, Some TypeError)
           | _ \<Rightarrow> (s, Some AttributeError)))"

text \<open>
  \<^verbatim>\<open>start_response(status, headers, exc_info=None)\<close>, the closure built by
  \<^verbatim>\<open>makefile\<close>. \<^verbatim>\<open>status.encode\<close> raises \<^verbatim>\<open>AttributeError\<close> unless the status is
  a \<^verbatim>\<open>str\<close>. A header name or value that is a \<^verbatim>\<open>str\<close> is encoded, any other is
  kept (the \<^verbatim>\<open>AttributeError\<close> is caught); the concatenation with \<^verbatim>\<open>b':'\<close> raises
  \<^verbatim>\<open>TypeError\<close> unless both are bytes by then. Every write goes to \<^verbatim>\<open>output\<close> at
  once, so what was written before an exception stays written.
\<close>

definition encode_if_str :: "pyval \<Rightarrow> exc + pyval" where
  "encode_if_str x =
     (case x of
        PStr u \<Rightarrow> (case encode_utf8 u of Inl e \<Rightarrow> Inl e | Inr b \<Rightarrow> Inr (PBytes b))
      | _ \<Rightarrow> Inr x)"

definition header_bytes :: "pyval \<Rightarrow> pyval \<Rightarrow> exc + bytes" where
  "header_bytes k v =
     (case encode_if_str k of
        Inl e \<Rightarrow> Inl e
      | Inr k' \<Rightarrow>
          (case encode_if_str v of
             Inl e \<Rightarrow> Inl e
           | Inr v' \<Rightarrow>
               (case (k', v') of
                  (PBytes kb, PBytes vb) \<Rightarrow> Inr (kb @ '':'' @ vb @ [LF])
                | _ \<Rightarrow> Inl TypeError)))"

fun write_headers :: "(pyval \<times> pyval) list \<Rightarrow> bytes \<Rightarrow> bytes \<times> exc option" where
  "write_headers [] out = (out @ [LF], None)"
| "write_headers ((k, v) # hs) out =
     (case header_bytes k v of
        Inl e \<Rightarrow> (out, Some e)
      | Inr b \<Rightarrow> write_headers hs (out @ b))"

definition start_response ::
  "pyval \<Rightarrow> (pyval \<times> pyval) list \<Rightarrow> wsgi_fake_socket \<Rightarrow> wsgi_fake_socket \<times> exc option" where
  "start_response status headers s =
     (case status of
        PStr st \<Rightarrow>
          (case encode_utf8 st of
             Inl e \<Rightarrow> (s, Some e)
           | Inr sb \<Rightarrow>
               (case write_headers headers (output' s @ ''HTTP/1.0 '' @ sb @ [LF]) of
                  (out, r) \<Rightarrow> (s\<lparr>output' := out\<rparr>, r)))
      | _ \<Rightarrow> (s, Some AttributeError))"

definition write_fn :: "pyval \<Rightarrow> wsgi_fake_socket \<Rightarrow> wsgi_fake_socket" where
  "write_fn d s = s\<lparr>write_results := write_results s @ [d]\<rparr>"

text \<open>The calls an application makes, in order, up to the first that raises.\<close>

fun run_events :: "event list \<Rightarrow> wsgi_fake_socket \<Rightarrow> wsgi_fake_socket \<times> exc option" where
  "run_events [] s = (s, None)"
| "run_events (StartResponse status headers # es) s =
     (case start_response status headers s of
        (s', Some e) \<Rightarrow> (s', Some e)
      | (s', None) \<Rightarrow> run_events es s')"
| "run_events (WriteFn d # es) s = run_events es (write_fn d s)"

text \<open>\<^verbatim>\<open>next(self.result)\<close>: the calls made while the item is produced, then the item
  or the exception.\<close>

definition pull :: "event list \<times> outcome \<Rightarrow> wsgi_fake_socket \<Rightarrow> wsgi_fake_socket \<times> outcome" where
  "pull p s =
     (case run_events (fst p) s of
        (s', Some e) \<Rightarrow> (s', Raise e)
      | (s', None) \<Rightarrow> (s', snd p))"

text \<open>The \<^verbatim>\<open>finally\<close> clause: \<^verbatim>\<open>for data in self.write_results: self.output.write(data)\<close>.\<close>

fun flush_writes :: "pyval list \<Rightarrow> bytes \<Rightarrow> bytes \<times> exc option" where
  "flush_writes [] out = (out, None)"
| "flush_writes (d # ds) out =
     (case bio_write out d of
        Inl e \<Rightarrow> (out, Some e)
      | Inr out' \<Rightarrow> flush_writes ds out')"

text \<open>
  The loop \<^verbatim>\<open>while 1: data = next(self.result); self.output.write(data)\<close>, from pull
  number \<open>i\<close> on. It can only end by an exception; on an iterable that never ends and
  yields bytes forever it does not return (the value \<open>None\<close>).
\<close>

partial_function (option) drain ::
  "(nat \<Rightarrow> event list \<times> outcome) \<Rightarrow> nat \<Rightarrow> wsgi_fake_socket \<Rightarrow> (wsgi_fake_socket \<times> exc) option"
where
  "drain it i s =
     (case pull (it i) s of
        (s1, Raise e) \<Rightarrow> Some (s1, e)
      | (s1, Yield d) \<Rightarrow>
          (case bio_write (output' s1) d of
             Inl e \<Rightarrow> Some (s1, e)
           | Inr out \<Rightarrow> drain it (Suc i) (s1\<lparr>output' := out\<rparr>)))"

declare drain.simps [code]

text \<open>
  The body of the outer \<^verbatim>\<open>try\<close> of \<^verbatim>\<open>makefile\<close>: the first pull, the flush of
  \<^verbatim>\<open>write_results\<close> in the \<^verbatim>\<open>finally\<close> clause (an exception raised there replaces
  the pending one), then, for a first item that counts as true, its write (a
  \<^verbatim>\<open>TypeError\<close> is raised again as a \<^verbatim>\<open>TypeError\<close>) and the loop. The result is the
  socket and the exception the body ends with, \<open>None\<close> when it ends normally.
\<close>

definition read_results ::
  "app_result \<Rightarrow> wsgi_fake_socket \<Rightarrow> (wsgi_fake_socket \<times> exc option) option" where
  "read_results r s0 =
     (case pull (pulls r 0) s0 of
        (s1, first) \<Rightarrow>
          (case flush_writes (write_results s1) (output' s1) of
             (out, Some e) \<Rightarrow> Some (s1\<lparr>output' := out\<rparr>, Some e)
           | (out, None) \<Rightarrow>
               (let s2 = s1\<lparr>output' := out\<rparr> in
                case first of
                  Raise e \<Rightarrow> Some (s2, Some e)
                | Yield generator_data \<Rightarrow>
                    if truthy generator_data then
                      (case bio_write (output' s2) generator_data of
                         Inl e \<Rightarrow> Some (s2, Some TypeError)
                       | Inr out3 \<Rightarrow>
                           (case drain (pulls r) 1 (s2\<lparr>output' := out3\<rparr>) of
                              None \<Rightarrow> None
                            | Some (s3, e) \<Rightarrow> Some (s3, Some e)))
                    else Some (s2, None))))"

text \<open>
  \<^verbatim>\<open>makefile\<close>. The result records the socket afterwards, whether
  \<^verbatim>\<open>app_result.close()\<close> was invoked, and what the call returned: the bytes of the
  file object, or the exception raised. \<open>None\<close> stands for a call that does not return.
  Calling \<^verbatim>\<open>None\<close> as the application raises \<^verbatim>\<open>TypeError\<close>.
\<close>

record mk_result =
  sock_after :: wsgi_fake_socket
  close_called :: bool
  returned :: "exc + bytes"

text \<open>
  An exception \<open>e\<close> that leaves \<^verbatim>\<open>makefile\<close>: nothing is returned and
  \<^verbatim>\<open>close\<close> has not been invoked.
\<close>

definition raised :: "wsgi_fake_socket \<Rightarrow> exc \<Rightarrow> mk_result" where
  "raised s e = \<lparr>sock_after = s, close_called = False, returned = Inl e\<rparr>"

text \<open>
  After the \<^verbatim>\<open>try\<close> statement: \<^verbatim>\<open>app_result.close()\<close> when the object has the
  attribute, then the return of everything written to \<^verbatim>\<open>output\<close>.
\<close>

definition finish :: "app_result \<Rightarrow> wsgi_fake_socket \<Rightarrow> mk_result" where
  "finish r s = \<lparr>sock_after = s, close_called = has_close r, returned = Inr (output' s)\<rparr>"

text \<open>
  The whole of \<^verbatim>\<open>makefile\<close>: the request is decoded, the application called, its
  result read; \<^verbatim>\<open>except StopIteration: pass\<close> lets the exhaustion signal through to
  the closing step, any other exception leaves the call.
\<close>

definition makefile :: "wsgi_fake_socket \<Rightarrow> mk_result option" where
  "makefile s =
     (case make_environ (inp s) (host s) (port s) (script_name s) of
        Inl e \<Rightarrow> Some (raised s e)
      | Inr environ \<Rightarrow>
          (case app s of
             NoneObj \<Rightarrow> Some (raised s TypeError)
           | AppObj t f \<Rightarrow>
               (let app_result = f environ in
                case run_events (on_call app_result) s of
                  (s0, Some e) \<Rightarrow> Some (raised s0 e)
                | (s0, None) \<Rightarrow>
                    (case read_results app_result s0 of
                       None \<Rightarrow> None
                     | Some (s3, x) \<Rightarrow>
                         (case x of
                            None \<Rightarrow> Some (finish app_result s3)
                          | Some e \<Rightarrow>
                              if e = StopIteration then Some (finish app_result s3)
                              else Some (raised s3 e))))))"

section \<open>Notions used to state the properties\<close>

text \<open>
  The bytes a header name or value stands for on the wire: itself when it is bytes, its
  UTF-8 encoding when it is a \<^verbatim>\<open>str\<close>.
\<close>

definition stands_for :: "pyval \<Rightarrow> bytes \<Rightarrow> bool" where
  "stands_for x b =
     (case x of PBytes b' \<Rightarrow> b' = b | PStr u \<Rightarrow> encode_utf8 u = Inr b | _ \<Rightarrow> False)"

text \<open>
  The status line and header block of the synthesized response, written out:
  \<^verbatim>\<open>HTTP/1.0 <status>\n\<close>, then \<^verbatim>\<open><name>:<value>\n\<close> for each header in
  order, then an empty line.
\<close>

definition header_block :: "bytes \<Rightarrow> (bytes \<times> bytes) list \<Rightarrow> bytes" where
  "header_block sb hbs =
     ''HTTP/1.0 '' @ sb @ [LF] @ concat (map (\<lambda>(kb, vb). kb @ '':'' @ vb @ [LF]) hbs) @ [LF]"

text \<open>The three keys of the request context that come from the URL.\<close>

definition url_fields :: "exc + environ \<Rightarrow> exc + (ustr \<times> ustr \<times> ustr option)" where
  "url_fields r =
     (case r of Inl e \<Rightarrow> Inl e | Inr env \<Rightarrow> Inr (SCRIPT_NAME env, PATH_INFO env, QUERY_STRING env))"

text \<open>What a caller of \<^verbatim>\<open>makefile\<close> and the application's result object observe:
  whether \<^verbatim>\<open>close\<close> was invoked, and what the call returned or raised.\<close>

definition close_and_result :: "mk_result option \<Rightarrow> (bool \<times> (exc + bytes)) option" where
  "close_and_result m = map_option (\<lambda>r. (close_called r, returned r)) m"

text \<open>
  To say that data passed to \<^verbatim>\<open>write_fn\<close> after the first pull never reaches the
  response: \<open>without_late_writes\<close> is the same application with every call of
  \<^verbatim>\<open>write_fn\<close> made during the second and later pulls removed. Two pulls are
  \<open>similar\<close> when they have the same outcome and the same calls of
  \<^verbatim>\<open>start_response\<close>. \<open>seen\<close>, \<open>seen_body\<close> and \<open>result_of\<close> name what of a
  run reaches the caller; \<open>buffer_and_result\<close> is the final \<^verbatim>\<open>write_results\<close> with
  what \<^verbatim>\<open>makefile\<close> returned or raised.
\<close>

fun is_write :: "event \<Rightarrow> bool" where
  "is_write (WriteFn d) = True"
| "is_write (StartResponse status headers) = False"

definition drop_late_writes ::
  "(nat \<Rightarrow> event list \<times> outcome) \<Rightarrow> nat \<Rightarrow> event list \<times> outcome" where
  "drop_late_writes it i =
     (if i = 0 then it i else (filter (\<lambda>e. \<not> is_write e) (fst (it i)), snd (it i)))"

fun without_late_writes :: "app_obj \<Rightarrow> app_obj" where
  "without_late_writes NoneObj = NoneObj"
| "without_late_writes (AppObj t f) =
     AppObj t (\<lambda>env. (f env)\<lparr>pulls := drop_late_writes (pulls (f env))\<rparr>)"

definition similar :: "event list \<times> outcome \<Rightarrow> event list \<times> outcome \<Rightarrow> bool" where
  "similar p q =
     (snd p = snd q
      \<and> filter (\<lambda>e. \<not> is_write e) (fst p) = filter (\<lambda>e. \<not> is_write e) (fst q))"

definition seen :: "wsgi_fake_socket \<times> exc \<Rightarrow> bytes \<times> exc" where
  "seen y = (output' (fst y), snd y)"

definition seen_body :: "wsgi_fake_socket \<times> exc option \<Rightarrow> bytes \<times> exc option" where
  "seen_body y = (output' (fst y), snd y)"

definition result_of :: "bytes \<times> exc option \<Rightarrow> exc + bytes" where
  "result_of y =
     (case snd y of
        None \<Rightarrow> Inr (fst y)
      | Some e \<Rightarrow> if e = StopIteration then Inr (fst y) else Inl e)"

definition buffer_and_result :: "mk_result option \<Rightarrow> (pyval list \<times> (exc + bytes)) option" where
  "buffer_and_result m = map_option (\<lambda>r. (write_results (sock_after r), returned r)) m"

section \<open>Concrete inputs\<close>

definition ex_host :: pyval where
  "ex_host = PStr (decode_latin1 ''example.test'')"

definition ex_conn :: conn where
  "ex_conn = \<lparr>conn_host = ex_host, conn_port = PInt 80, sock = NoSock, real_connects = 0\<rparr>"

definition ex_conn_str :: conn where
  "ex_conn_str =
     \<lparr>conn_host = ex_host, conn_port = PStr (decode_latin1 ''80''), sock = NoSock,
      real_connects = 0\<rparr>"

text \<open>An application that ignores the request and returns an empty iterable.\<close>

definition ex_empty_app :: app_obj where
  "ex_empty_app =
     AppObj True (\<lambda>env. \<lparr>on_call = [], pulls = (\<lambda>i. ([], Raise StopIteration)),
                          has_close = False\<rparr>)"

definition CRLF :: bytes where
  "CRLF = [CHR 0x0D, LF]"

definition ex_request :: bytes where
  "ex_request = ''GET / HTTP/1.1'' @ CRLF @ ''Host: example.test'' @ CRLF @ CRLF"

definition ex_status :: pyval where
  "ex_status = PStr (decode_latin1 ''200 OK'')"

definition ex_headers :: "(pyval \<times> pyval) list" where
  "ex_headers = [(PStr (decode_latin1 ''Content-Type''), PStr (decode_latin1 ''text/plain''))]"

definition ex_wire :: bytes where
  "ex_wire = ''HTTP/1.0 200 OK'' @ [LF] @ ''Content-Type:text/plain'' @ [LF, LF]"

text \<open>
  A generator-style application: its first \<^verbatim>\<open>next()\<close> calls
  \<^verbatim>\<open>start_response\<close> and \<^verbatim>\<open>write_fn(b'world')\<close> and yields
  \<^verbatim>\<open>b'hello '\<close>; the second calls \<^verbatim>\<open>write_fn(b'late')\<close> and yields
  \<^verbatim>\<open>b'again'\<close>; the third raises \<^verbatim>\<open>StopIteration\<close>. The returned object has
  a \<^verbatim>\<open>close\<close> method.
\<close>

definition ex_gen_pulls :: "nat \<Rightarrow> event list \<times> outcome" where
  "ex_gen_pulls i =
     (if i = 0 then
        ([StartResponse ex_status ex_headers, WriteFn (PBytes ''world'')],
         Yield (PBytes ''hello ''))
      else if i = 1 then ([WriteFn (PBytes ''late'')], Yield (PBytes ''again''))
      else ([], Raise StopIteration))"

definition ex_gen_result :: app_result where
  "ex_gen_result = \<lparr>on_call = [], pulls = ex_gen_pulls, has_close = True\<rparr>"

definition ex_gen_sock :: wsgi_fake_socket where
  "ex_gen_sock =
     (init_socket (AppObj True (\<lambda>env. ex_gen_result)) ex_host (PInt 80) [])\<lparr>inp := ex_request\<rparr>"



text \<open>Two requests: one under the mount path \<^verbatim>\<open>/app\<close>, one outside it.\<close>

definition ex_app_request :: bytes where
  "ex_app_request = ''GET /app/foo?x=1 HTTP/1.1'' @ CRLF @ CRLF"

definition ex_other_request :: bytes where
  "ex_other_request = ''GET /other?y=2 HTTP/1.1'' @ CRLF @ CRLF"

text \<open>
  An application whose result object has a \<^verbatim>\<open>close\<close> method and whose first item is
  the \<^verbatim>\<open>str\<close> \<^verbatim>\<open>'hello'\<close>, not bytes.
\<close>

definition ex_text_result :: app_result where
  "ex_text_result =
     \<lparr>on_call = [StartResponse ex_status ex_headers],
      pulls = (\<lambda>i. if i = 0 then ([], Yield (PStr (decode_latin1 ''hello'')))
                   else ([], Raise StopIteration)),
      has_close = True\<rparr>"

definition ex_text_sock :: wsgi_fake_socket where
  "ex_text_sock =
     (init_socket (AppObj True (\<lambda>env. ex_text_result)) ex_host (PInt 80) [])\<lparr>inp := ex_request\<rparr>"

section \<open>The calls of an application and the draining loop\<close>

lemma run_events_append:
  "run_events (a @ b) s =
     (case run_events a s of (s', Some e) \<Rightarrow> (s', Some e) | (s', None) \<Rightarrow> run_events b s')"
proof (induction a arbitrary: s)
  case Nil
  show ?case by simp
next
  case (Cons x a)
  show ?case
  proof (cases x)
    case (StartResponse st hs)
    with Cons show ?thesis by (simp split: prod.splits option.splits)
  next
    case (WriteFn d)
    with Cons show ?thesis by simp
  qed
qed

lemma run_events_writes:
  "run_events (map WriteFn ws) s = (s\<lparr>write_results := write_results s @ ws\<rparr>, None)"
  by (induction ws arbitrary: s) (simp_all add: write_fn_def)

lemma flush_writes_bytes:
  "flush_writes (map PBytes ws) out = (out @ concat ws, None)"
  by (induction ws arbitrary: out) simp_all

lemma pull_writes:
  "pull (map WriteFn ws, oc) s = (s\<lparr>write_results := write_results s @ ws\<rparr>, oc)"
  by (simp add: pull_def run_events_writes)

lemma drain_bytes:
  assumes le: "i \<le> n"
    and stop: "it n = (map WriteFn (wr n), Raise e)"
    and mid: "\<forall>j. i \<le> j \<and> j < n \<longrightarrow> it j = (map WriteFn (wr j), Yield (PBytes (cs j)))"
  shows "drain it i s =
           Some (s\<lparr>write_results := write_results s @ concat (map wr [i..<Suc n]),
                   output' := output' s @ concat (map cs [i..<n])\<rparr>, e)"
  using le mid
proof (induction arbitrary: s rule: inc_induct)
  case base
  show ?case
    by (subst drain.simps) (simp add: stop pull_writes)
next
  case (step k)
  have here: "it k = (map WriteFn (wr k), Yield (PBytes (cs k)))"
    using step.prems step.hyps by simp
  have later: "\<forall>j. Suc k \<le> j \<and> j < n \<longrightarrow> it j = (map WriteFn (wr j), Yield (PBytes (cs j)))"
    using step.prems by simp
  have l1: "[k..<Suc n] = k # [Suc k..<Suc n]"
    using step.hyps by (simp add: upt_conv_Cons)
  have l2: "[k..<n] = k # [Suc k..<n]"
    using step.hyps by (simp add: upt_conv_Cons)
  show ?case
    by (subst drain.simps) (simp add: here pull_writes step.IH [OF later] l1 l2 del: upt_Suc)
qed


lemma run_events_split:
  assumes "run_events (a @ b) s = (s1, None)"
  obtains s0 where "run_events a s = (s0, None)" and "run_events b s0 = (s1, None)"
  using assms by (auto simp: run_events_append split: prod.splits option.splits)

lemma makefile_after_first_pull:
  assumes env: "make_environ (inp s) (host s) (port s) (script_name s) = Inr env"
    and app: "app s = AppObj t f"
    and ev: "run_events (on_call (f env) @ fst (pulls (f env) 0)) s = (s1, None)"
    and wr: "write_results s1 = map PBytes ws"
  shows "makefile s =
     (let r = f env; s2 = s1\<lparr>output' := output' s1 @ concat ws\<rparr> in
      case snd (pulls r 0) of
        Raise e \<Rightarrow> if e = StopIteration then Some (finish r s2) else Some (raised s2 e)
      | Yield g \<Rightarrow>
          if truthy g then
            (case bio_write (output' s2) g of
               Inl e \<Rightarrow> Some (raised s2 TypeError)
             | Inr out3 \<Rightarrow>
                 (case drain (pulls r) 1 (s2\<lparr>output' := out3\<rparr>) of
                    None \<Rightarrow> None
                  | Some (s3, e) \<Rightarrow>
                      if e = StopIteration then Some (finish r s3) else Some (raised s3 e)))
          else Some (finish r s2))"
proof -
  from ev obtain s0 where a: "run_events (on_call (f env)) s = (s0, None)"
    and b: "run_events (fst (pulls (f env) 0)) s0 = (s1, None)"
    by (rule run_events_split)
  have p: "pull (pulls (f env) 0) s0 = (s1, snd (pulls (f env) 0))"
    by (simp add: pull_def b)
  have fl: "flush_writes (write_results s1) (output' s1) = (output' s1 @ concat ws, None)"
    by (simp add: wr flush_writes_bytes)
  show ?thesis
    by (simp add: makefile_def env app a read_results_def p fl raised_def Let_def
             split: outcome.splits sum.splits option.splits prod.splits)
qed

lemma drain_prefix:
  assumes le: "i \<le> n"
    and mid: "\<forall>j. i \<le> j \<and> j < n \<longrightarrow> it j = (map WriteFn (wr j), Yield (PBytes (cs j)))"
  shows "drain it i s =
           drain it n (s\<lparr>write_results := write_results s @ concat (map wr [i..<n]),
                         output' := output' s @ concat (map cs [i..<n])\<rparr>)"
  using le mid
proof (induction arbitrary: s rule: inc_induct)
  case base
  show ?case by simp
next
  case (step k)
  have here: "it k = (map WriteFn (wr k), Yield (PBytes (cs k)))"
    using step.prems step.hyps by simp
  have later: "\<forall>j. Suc k \<le> j \<and> j < n \<longrightarrow> it j = (map WriteFn (wr j), Yield (PBytes (cs j)))"
    using step.prems by simp
  have l: "[k..<n] = k # [Suc k..<n]"
    using step.hyps by (simp add: upt_conv_Cons)
  show ?case
    by (subst drain.simps) (simp add: here pull_writes step.IH [OF later] l)
qed

lemma drain_bad_chunk:
  assumes le: "i \<le> n"
    and bad: "it n = (map WriteFn (wr n), Yield g)" "\<forall>b. g \<noteq> PBytes b"
    and mid: "\<forall>j. i \<le> j \<and> j < n \<longrightarrow> it j = (map WriteFn (wr j), Yield (PBytes (cs j)))"
  shows "drain it i s =
           Some (s\<lparr>write_results := write_results s @ concat (map wr [i..<Suc n]),
                   output' := output' s @ concat (map cs [i..<n])\<rparr>, TypeError)"
proof -
  from bad(2) have w: "bio_write buf g = Inl TypeError" for buf
    by (cases g) simp_all
  show ?thesis
    unfolding drain_prefix [OF le mid]
    using le by (subst drain.simps) (simp add: bad(1) pull_writes w)
qed

lemma makefile_close_iff_returns:
  assumes env: "make_environ (inp s) (host s) (port s) (script_name s) = Inr env"
    and app: "app s = AppObj t f"
    and mk: "makefile s = Some res"
  shows "close_called res = (has_close (f env) \<and> \<not> isl (returned res))"
  using mk
  by (auto simp: makefile_def env app finish_def raised_def Let_def
           split: prod.splits option.splits if_splits)

section \<open>The header block\<close>

lemma utf8_char_ascii: "n < 128 \<Longrightarrow> utf8_char n = Inr [char_of n]"
  by (simp add: utf8_char_def)

lemma encode_utf8_ascii:
  "\<forall>c\<in>set bs. (of_char c :: nat) < 128 \<Longrightarrow> encode_utf8 (decode_latin1 bs) = Inr bs"
  by (induction bs) (simp_all add: decode_latin1_def utf8_char_ascii)

lemma encode_if_str_stands_for: "stands_for x b \<Longrightarrow> encode_if_str x = Inr (PBytes b)"
  by (cases x) (simp_all add: stands_for_def encode_if_str_def)

lemma header_bytes_stands_for:
  "stands_for k kb \<Longrightarrow> stands_for v vb \<Longrightarrow> header_bytes k v = Inr (kb @ '':'' @ vb @ [LF])"
  by (simp add: header_bytes_def encode_if_str_stands_for)

lemma write_headers_stands_for:
  "list_all2 (\<lambda>(k, v) (kb, vb). stands_for k kb \<and> stands_for v vb) hs hbs \<Longrightarrow>
   write_headers hs out
     = (out @ concat (map (\<lambda>(kb, vb). kb @ '':'' @ vb @ [LF]) hbs) @ [LF], None)"
proof (induction hs hbs arbitrary: out rule: list_all2_induct)
  case Nil
  show ?case by simp
next
  case (Cons x xs y ys)
  obtain k v where x: "x = (k, v)" by (cases x)
  obtain kb vb where y: "y = (kb, vb)" by (cases y)
  from Cons.hyps(1) x y have "header_bytes k v = Inr (kb @ '':'' @ vb @ [LF])"
    by (auto simp: header_bytes_stands_for)
  with Cons.IH x y show ?case by simp
qed

lemma start_response_wire:
  assumes "encode_utf8 st = Inr sb"
    and "list_all2 (\<lambda>(k, v) (kb, vb). stands_for k kb \<and> stands_for v vb) hs hbs"
  shows "start_response (PStr st) hs s
           = (s\<lparr>output' := output' s @ header_block sb hbs\<rparr>, None)"
  using assms by (simp add: start_response_def write_headers_stands_for header_block_def)

section \<open>The URL in the request decoder\<close>

lemma drop_after_takeWhile:
  "drop (Suc (length (takeWhile P xs))) xs = drop (Suc 0) (dropWhile P xs)"
proof -
  have "drop (Suc (length (takeWhile P xs))) xs
          = drop (Suc 0) (drop (length (takeWhile P xs)) xs)"
    by simp
  then show ?thesis by (simp only: dropWhile_eq_drop)
qed

lemma url_split:
  "(case split1 (63::nat) rest of [] \<Rightarrow> [] | x # _ \<Rightarrow> x) = takeWhile (\<lambda>c. c \<noteq> 63) rest
   \<and> (case split1 (63::nat) rest of [_, q] \<Rightarrow> q | _ \<Rightarrow> [])
       = drop (Suc (length (takeWhile (\<lambda>c. c \<noteq> 63) rest))) rest"
proof (cases "63 \<in> set rest")
  case True
  then show ?thesis by (simp add: split1_def drop_after_takeWhile)
next
  case False
  then have tw: "takeWhile (\<lambda>c. c \<noteq> 63) rest = rest"
    by (auto simp: takeWhile_eq_all_conv)
  from False show ?thesis by (simp add: split1_def tw)
qed

lemma three_fields_default:
  "(\<forall>a b c. xs \<noteq> [a, b, c]) \<Longrightarrow> (case xs of [a, b, c] \<Rightarrow> X a b c | _ \<Rightarrow> Y) = Y"
  by (auto split: list.splits)

lemma make_environ_Inr:
  assumes rh: "read_headers (snd (readline inp0)) init_header_vars = Inr (hv, body)"
    and sp: "split_all 32 (decode_latin1 (fst (readline inp0))) = [method, url, protocol]"
  shows "\<exists>env. make_environ inp0 h p sn = Inr env
           \<and> SCRIPT_NAME env = (if prefix sn url then sn else [])
           \<and> PATH_INFO env
               = (case split1 63 (if prefix sn url then drop (length sn) url else url) of
                    [] \<Rightarrow> [] | x # _ \<Rightarrow> x)
           \<and> QUERY_STRING env
               = (let q = (case split1 63 (if prefix sn url then drop (length sn) url else url) of
                             [_, q] \<Rightarrow> q | _ \<Rightarrow> [])
                  in if q = [] then None else Some q)"
  unfolding make_environ_def Let_def rh sp
  by simp

lemma make_environ_Inl:
  "read_headers (snd (readline inp0)) init_header_vars = Inl e \<Longrightarrow>
   make_environ inp0 h p sn = Inl e"
  unfolding make_environ_def Let_def by simp

lemma make_environ_bad_line:
  assumes rh: "read_headers (snd (readline inp0)) init_header_vars = Inr (hv, body)"
    and sp: "\<forall>a b c. split_all 32 (decode_latin1 (fst (readline inp0))) \<noteq> [a, b, c]"
  shows "make_environ inp0 h p sn = Inl ValueError"
  unfolding make_environ_def Let_def rh
  by (simp add: three_fields_default [OF sp])

lemma make_environ_url:
  assumes ok: "make_environ inp0 h p sn = Inr env"
    and sp: "split_all 32 (decode_latin1 (fst (readline inp0))) = [method, url, protocol]"
  shows "SCRIPT_NAME env = (if prefix sn url then sn else [])
       \<and> PATH_INFO env
           = takeWhile (\<lambda>c. c \<noteq> 63) (if prefix sn url then drop (length sn) url else url)
       \<and> QUERY_STRING env
           = (let q = drop (Suc (length (PATH_INFO env)))
                        (if prefix sn url then drop (length sn) url else url)
              in if q = [] then None else Some q)"
proof (cases "read_headers (snd (readline inp0)) init_header_vars")
  case (Inl e)
  from make_environ_Inl [OF Inl] ok show ?thesis by simp
next
  case (Inr x)
  obtain hv body where x: "x = (hv, body)" by (cases x)
  from make_environ_Inr [OF Inr [unfolded x] sp, where sn = sn and h = h and p = p] ok
  show ?thesis by (auto simp: url_split Let_def)
qed

lemma make_environ_isl:
  "isl (make_environ inp0 h p sn) = isl (make_environ inp0 h p sn')"
proof (cases "read_headers (snd (readline inp0)) init_header_vars")
  case (Inl e)
  then show ?thesis by (simp add: make_environ_Inl)
next
  case (Inr x)
  obtain hv body where x: "x = (hv, body)" by (cases x)
  show ?thesis
  proof (cases "\<exists>a b c. split_all 32 (decode_latin1 (fst (readline inp0))) = [a, b, c]")
    case True
    then obtain a b c where sp: "split_all 32 (decode_latin1 (fst (readline inp0))) = [a, b, c]"
      by blast
    from make_environ_Inr [OF Inr [unfolded x] sp, where sn = sn and h = h and p = p]
         make_environ_Inr [OF Inr [unfolded x] sp, where sn = sn' and h = h and p = p]
    show ?thesis by auto
  next
    case False
    then have sp: "\<forall>a b c. split_all 32 (decode_latin1 (fst (readline inp0))) \<noteq> [a, b, c]"
      by blast
    show ?thesis by (simp add: make_environ_bad_line [OF Inr [unfolded x] sp])
  qed
qed

section \<open>Calls of the write function after the first pull\<close>

lemma start_response_output:
  "output' s' = output' s \<Longrightarrow>
   snd (start_response st hs s') = snd (start_response st hs s)
   \<and> output' (fst (start_response st hs s')) = output' (fst (start_response st hs s))"
  by (simp add: start_response_def split: pyval.splits sum.splits prod.splits)

lemma run_events_nonwrites:
  "output' s' = output' s \<Longrightarrow>
   snd (run_events (filter (\<lambda>e. \<not> is_write e) es) s') = snd (run_events es s)
   \<and> output' (fst (run_events (filter (\<lambda>e. \<not> is_write e) es) s'))
       = output' (fst (run_events es s))"
proof (induction es arbitrary: s s')
  case Nil
  then show ?case by simp
next
  case (Cons x es)
  show ?case
  proof (cases x)
    case (WriteFn d)
    have "output' s' = output' (write_fn d s)"
      using Cons.prems by (simp add: write_fn_def)
    from Cons.IH [OF this] WriteFn show ?thesis by simp
  next
    case (StartResponse st hs)
    obtain a r where a: "start_response st hs s = (a, r)" by (cases "start_response st hs s")
    obtain b r' where b: "start_response st hs s' = (b, r')"
      by (cases "start_response st hs s'")
    from start_response_output [OF Cons.prems, of st hs] a b
    have r: "r' = r" and o: "output' b = output' a" by simp_all
    show ?thesis
    proof (cases r)
      case None
      with Cons.IH [OF o] StartResponse a b r show ?thesis by simp
    next
      case (Some e)
      with StartResponse a b r o show ?thesis by simp
    qed
  qed
qed

lemma pull_similar:
  assumes sim: "similar p q" and out: "output' s' = output' s"
  shows "snd (pull q s') = snd (pull p s) \<and> output' (fst (pull q s')) = output' (fst (pull p s))"
proof -
  let ?nw = "filter (\<lambda>e. \<not> is_write e)"
  from sim have f: "?nw (fst p) = ?nw (fst q)" and oc: "snd p = snd q"
    by (simp_all add: similar_def)
  have a: "snd (run_events (?nw (fst p)) s) = snd (run_events (fst p) s)
           \<and> output' (fst (run_events (?nw (fst p)) s)) = output' (fst (run_events (fst p) s))"
    by (rule run_events_nonwrites) simp
  have b: "snd (run_events (?nw (fst q)) s) = snd (run_events (fst q) s')
           \<and> output' (fst (run_events (?nw (fst q)) s)) = output' (fst (run_events (fst q) s'))"
    by (rule run_events_nonwrites) (simp add: out)
  from a b f have c: "snd (run_events (fst q) s') = snd (run_events (fst p) s)"
    and d: "output' (fst (run_events (fst q) s')) = output' (fst (run_events (fst p) s))"
    by simp_all
  obtain s1 x where e1: "run_events (fst p) s = (s1, x)" by (cases "run_events (fst p) s")
  obtain s1' x' where e2: "run_events (fst q) s' = (s1', x')" by (cases "run_events (fst q) s'")
  from c d e1 e2 oc show ?thesis
    by (cases x) (simp_all add: pull_def)
qed

lemma drain_sim:
  assumes d: "drain it i s = Some y"
    and sim: "\<forall>j. similar (it j) (it' j)"
    and out: "output' s' = output' s"
  shows "\<exists>y'. drain it' i s' = Some y' \<and> output' (fst y') = output' (fst y) \<and> snd y' = snd y"
proof -
  have "(\<forall>j. similar (it j) (it' j)) \<longrightarrow>
        (\<forall>s'::wsgi_fake_socket. output' s' = output' s \<longrightarrow>
           (\<exists>y'. drain it' i s' = Some y' \<and> output' (fst y') = output' (fst y)
                  \<and> snd y' = snd y))"
  proof (rule drain.raw_induct [where P = "\<lambda>it i s y. (\<forall>j. similar (it j) (it' j)) \<longrightarrow>
        (\<forall>s'::wsgi_fake_socket. output' s' = output' s \<longrightarrow>
           (\<exists>y'. drain it' i s' = Some y' \<and> output' (fst y') = output' (fst y)
                  \<and> snd y' = snd y))", OF _ d])
    fix drain0 :: "(nat \<Rightarrow> event list \<times> outcome) \<Rightarrow> nat \<Rightarrow> wsgi_fake_socket
        \<Rightarrow> (wsgi_fake_socket \<times> exc) option"
    fix it i s y
    assume IH: "\<And>it i s y. drain0 it i s = Some y \<Longrightarrow>
        (\<forall>j. similar (it j) (it' j)) \<longrightarrow>
        (\<forall>s'::wsgi_fake_socket. output' s' = output' s \<longrightarrow>
           (\<exists>y'. drain it' i s' = Some y' \<and> output' (fst y') = output' (fst y)
                  \<and> snd y' = snd y))"
      and eq: "(case pull (it i) s of
                  (s1, Yield d) \<Rightarrow>
                    (case bio_write (output' s1) d of
                       Inl e \<Rightarrow> Some (s1, e)
                     | Inr out \<Rightarrow> drain0 it (Suc i) (s1\<lparr>output' := out\<rparr>))
                | (s1, Raise e) \<Rightarrow> Some (s1, e)) = Some y"
    show "(\<forall>j. similar (it j) (it' j)) \<longrightarrow>
        (\<forall>s'::wsgi_fake_socket. output' s' = output' s \<longrightarrow>
           (\<exists>y'. drain it' i s' = Some y' \<and> output' (fst y') = output' (fst y)
                  \<and> snd y' = snd y))"
    proof (intro impI allI)
      fix s' :: wsgi_fake_socket
      assume sim: "\<forall>j. similar (it j) (it' j)" and out: "output' s' = output' s"
      obtain s1 oc where p: "pull (it i) s = (s1, oc)" by (cases "pull (it i) s")
      obtain s1' oc' where p': "pull (it' i) s' = (s1', oc')" by (cases "pull (it' i) s'")
      from sim have "similar (it i) (it' i)" by blast
      from pull_similar [OF this out] p p'
      have oc: "oc' = oc" and o1: "output' s1' = output' s1" by simp_all
      show "\<exists>y'. drain it' i s' = Some y' \<and> output' (fst y') = output' (fst y)
                  \<and> snd y' = snd y"
      proof (cases oc)
        case (Raise e)
        with eq p have "y = (s1, e)" by simp
        moreover from Raise p' oc have "drain it' i s' = Some (s1', e)"
          by (subst drain.simps) simp
        ultimately show ?thesis using o1 by simp
      next
        case (Yield d)
        show ?thesis
        proof (cases "bio_write (output' s1) d")
          case (Inl e)
          with eq p Yield have "y = (s1, e)" by simp
          moreover from Inl Yield p' oc o1 have "drain it' i s' = Some (s1', e)"
            by (subst drain.simps) simp
          ultimately show ?thesis using o1 by simp
        next
          case (Inr out)
          with eq p Yield have "drain0 it (Suc i) (s1\<lparr>output' := out\<rparr>) = Some y" by simp
          from IH [OF this] sim
          have "\<exists>y'. drain it' (Suc i) (s1'\<lparr>output' := out\<rparr>) = Some y'
                  \<and> output' (fst y') = output' (fst y) \<and> snd y' = snd y"
            by simp
          moreover from Inr Yield p' oc o1
          have "drain it' i s' = drain it' (Suc i) (s1'\<lparr>output' := out\<rparr>)"
            by (subst drain.simps) simp
          ultimately show ?thesis by simp
        qed
      qed
    qed
  qed
  with sim out show ?thesis by blast
qed

lemma similar_sym: "similar p q \<Longrightarrow> similar q p"
  by (simp add: similar_def)

lemma drain_seen_eq:
  assumes sim: "\<forall>j. similar (it j) (it' j)" and out: "output' s' = output' s"
  shows "map_option seen (drain it' i s') = map_option seen (drain it i s)"
proof (cases "drain it i s")
  case None
  have "drain it' i s' = None"
  proof (rule ccontr)
    assume "drain it' i s' \<noteq> None"
    then obtain y' where y': "drain it' i s' = Some y'" by auto
    from sim have "\<forall>j. similar (it' j) (it j)" by (simp add: similar_sym)
    from drain_sim [OF y' this out [symmetric]] None show False by simp
  qed
  with None show ?thesis by simp
next
  case (Some y)
  from drain_sim [OF Some sim out] Some show ?thesis
    by (auto simp: seen_def)
qed

lemma similar_drop_late_writes: "similar (it j) (drop_late_writes it j)"
  by (simp add: similar_def drop_late_writes_def)

lemma start_response_app:
  "start_response st hs (s\<lparr>app := a\<rparr>)
     = (fst (start_response st hs s)\<lparr>app := a\<rparr>, snd (start_response st hs s))"
  by (simp add: start_response_def split: pyval.splits sum.splits prod.splits)

lemma run_events_app:
  "run_events es (s\<lparr>app := a\<rparr>) = (fst (run_events es s)\<lparr>app := a\<rparr>, snd (run_events es s))"
proof (induction es arbitrary: s)
  case Nil
  show ?case by simp
next
  case (Cons x es)
  show ?case
  proof (cases x)
    case (WriteFn d)
    have "write_fn d (s\<lparr>app := a\<rparr>) = (write_fn d s)\<lparr>app := a\<rparr>"
      by (simp add: write_fn_def)
    with Cons.IH [of "write_fn d s"] WriteFn show ?thesis by simp
  next
    case (StartResponse st hs)
    obtain s1 r where sr: "start_response st hs s = (s1, r)"
      by (cases "start_response st hs s")
    with Cons.IH [of s1] StartResponse show ?thesis
      by (cases r) (simp_all add: start_response_app)
  qed
qed

lemma pull_app:
  "pull p (s\<lparr>app := a\<rparr>) = (fst (pull p s)\<lparr>app := a\<rparr>, snd (pull p s))"
proof -
  obtain s1 x where e: "run_events (fst p) s = (s1, x)" by (cases "run_events (fst p) s")
  then show ?thesis
    by (cases x) (simp_all add: pull_def run_events_app)
qed

lemma seen_body_of_seen:
  "map_option seen A = map_option seen B \<Longrightarrow>
   map_option seen_body (case A of None \<Rightarrow> None | Some (s3, e) \<Rightarrow> Some (s3, Some e))
     = map_option seen_body (case B of None \<Rightarrow> None | Some (s3, e) \<Rightarrow> Some (s3, Some e))"
  by (cases A; cases B) (auto simp: seen_def seen_body_def)

lemma read_results_late_writes:
  "map_option seen_body
     (read_results (r\<lparr>pulls := drop_late_writes (pulls r)\<rparr>) (s0\<lparr>app := a\<rparr>))
   = map_option seen_body (read_results r s0)"
proof -
  obtain s1 first where p: "pull (pulls r 0) s0 = (s1, first)" by (cases "pull (pulls r 0) s0")
  then have p': "pull (drop_late_writes (pulls r) 0) (s0\<lparr>app := a\<rparr>) = (s1\<lparr>app := a\<rparr>, first)"
    by (simp add: drop_late_writes_def pull_app)
  obtain out x where fl: "flush_writes (write_results s1) (output' s1) = (out, x)"
    by (cases "flush_writes (write_results s1) (output' s1)")
  show ?thesis
  proof (cases x)
    case (Some e)
    with p p' fl show ?thesis by (simp add: read_results_def seen_body_def)
  next
    case None
    note flush = this
    show ?thesis
    proof (cases first)
      case (Raise e)
      with p p' fl flush show ?thesis by (simp add: read_results_def seen_body_def)
    next
      case (Yield g)
      show ?thesis
      proof (cases "truthy g")
        case False
        with Yield p p' fl flush show ?thesis by (simp add: read_results_def seen_body_def)
      next
        case True
        show ?thesis
        proof (cases "bio_write out g")
          case (Inl e)
          with True Yield p p' fl flush show ?thesis
            by (simp add: read_results_def seen_body_def)
        next
          case (Inr out3)
          have sim: "\<forall>j. similar (pulls r j) (drop_late_writes (pulls r) j)"
            by (simp add: similar_drop_late_writes)
          have "map_option seen (drain (drop_late_writes (pulls r)) 1
                                   (s1\<lparr>app := a, output' := out3\<rparr>))
                = map_option seen (drain (pulls r) 1 (s1\<lparr>output' := out3\<rparr>))"
            by (rule drain_seen_eq [OF sim]) simp
          then have "map_option seen_body
              (case drain (drop_late_writes (pulls r)) 1 (s1\<lparr>app := a, output' := out3\<rparr>) of
                 None \<Rightarrow> None | Some (s3, e) \<Rightarrow> Some (s3, Some e))
            = map_option seen_body
              (case drain (pulls r) 1 (s1\<lparr>output' := out3\<rparr>) of
                 None \<Rightarrow> None | Some (s3, e) \<Rightarrow> Some (s3, Some e))"
            by (rule seen_body_of_seen)
          with Inr True Yield p p' fl flush show ?thesis
            by (simp add: read_results_def)
        qed
      qed
    qed
  qed
qed

lemma makefile_returned:
  assumes env: "make_environ (inp s) (host s) (port s) (script_name s) = Inr env"
    and app: "app s = AppObj t f"
    and ev: "run_events (on_call (f env)) s = (s0, None)"
  shows "map_option returned (makefile s)
           = map_option result_of (map_option seen_body (read_results (f env) s0))"
  by (auto simp: makefile_def env app ev Let_def finish_def raised_def result_of_def seen_body_def
           split: option.splits)

lemma makefile_without_late_writes:
  "map_option returned (makefile (s\<lparr>app := without_late_writes (app s)\<rparr>))
     = map_option returned (makefile s)"
proof (cases "make_environ (inp s) (host s) (port s) (script_name s)")
  case (Inl e)
  then show ?thesis by (simp add: makefile_def raised_def)
next
  case (Inr env)
  show ?thesis
  proof (cases "app s")
    case NoneObj
    with Inr show ?thesis by (simp add: makefile_def raised_def)
  next
    case (AppObj t f)
    let ?a = "without_late_writes (app s)"
    let ?f' = "\<lambda>env. (f env)\<lparr>pulls := drop_late_writes (pulls (f env))\<rparr>"
    have env': "make_environ (inp (s\<lparr>app := ?a\<rparr>)) (host (s\<lparr>app := ?a\<rparr>))
        (port (s\<lparr>app := ?a\<rparr>)) (script_name (s\<lparr>app := ?a\<rparr>)) = Inr env"
      using Inr by simp
    have app': "app (s\<lparr>app := ?a\<rparr>) = AppObj t ?f'"
      using AppObj by simp
    obtain s0 x where ev: "run_events (on_call (f env)) s = (s0, x)"
      by (cases "run_events (on_call (f env)) s")
    then have ev': "run_events (on_call (?f' env)) (s\<lparr>app := ?a\<rparr>) = (s0\<lparr>app := ?a\<rparr>, x)"
      by (simp add: run_events_app)
    show ?thesis
    proof (cases x)
      case (Some e)
      with Inr AppObj ev ev' show ?thesis by (simp add: makefile_def raised_def)
    next
      case None
      from makefile_returned [OF Inr AppObj ev [unfolded None]]
           makefile_returned [OF env' app' ev' [unfolded None]]
           read_results_late_writes [where r = "f env" and ?s0.0 = s0 and a = ?a]
      show ?thesis by simp
    qed
  qed
qed

section \<open>Facts about the concrete inputs\<close>

lemma ex_request_ok: "\<not> isl (make_environ ex_request ex_host (PInt 80) [])"
  by code_simp

lemma ex_start_response:
  "start_response ex_status ex_headers s = (s\<lparr>output' := output' s @ ex_wire\<rparr>, None)"
proof -
  have a: "encode_utf8 (decode_latin1 ''200 OK'') = Inr ''200 OK''"
    by (rule encode_utf8_ascii) simp
  have b: "list_all2 (\<lambda>(k, v) (kb, vb). stands_for k kb \<and> stands_for v vb) ex_headers
             [(''Content-Type'', ''text/plain'')]"
    by (simp add: ex_headers_def stands_for_def encode_utf8_ascii)
  show ?thesis
    using start_response_wire [OF a b, of s]
    by (simp add: ex_status_def header_block_def ex_wire_def)
qed

lemma ex_gen_sock_fields:
  "inp ex_gen_sock = ex_request" "host ex_gen_sock = ex_host" "port ex_gen_sock = PInt 80"
  "script_name ex_gen_sock = []" "app ex_gen_sock = AppObj True (\<lambda>env. ex_gen_result)"
  "output' ex_gen_sock = []" "write_results ex_gen_sock = []"
  by (simp_all add: ex_gen_sock_def init_socket_def)




lemma ex_app_request_line:
  "split_all 32 (decode_latin1 (fst (readline ex_app_request)))
     = [decode_latin1 ''GET'', decode_latin1 ''/app/foo?x=1'', decode_latin1 (''HTTP/1.1'' @ CRLF)]"
  by code_simp

lemma ex_other_request_line:
  "split_all 32 (decode_latin1 (fst (readline ex_other_request)))
     = [decode_latin1 ''GET'', decode_latin1 ''/other?y=2'', decode_latin1 (''HTTP/1.1'' @ CRLF)]"
  by code_simp

lemma ex_app_request_headers:
  "read_headers (snd (readline ex_app_request)) init_header_vars = Inr (init_header_vars, [])"
  by code_simp

lemma ex_other_request_headers:
  "read_headers (snd (readline ex_other_request)) init_header_vars = Inr (init_header_vars, [])"
  by code_simp

lemma ex_app_url:
  "prefix (decode_latin1 ''/app'') (decode_latin1 ''/app/foo?x=1'')"
  "takeWhile (\<lambda>c. c \<noteq> 63) (drop (length (decode_latin1 ''/app'')) (decode_latin1 ''/app/foo?x=1''))
     = decode_latin1 ''/foo''"
  "drop (Suc (length (decode_latin1 ''/foo'')))
     (drop (length (decode_latin1 ''/app'')) (decode_latin1 ''/app/foo?x=1''))
     = decode_latin1 ''x=1''"
  "decode_latin1 ''x=1'' \<noteq> []"
  by (simp_all add: decode_latin1_def)

lemma ex_other_url:
  "\<not> prefix (decode_latin1 ''/app'') (decode_latin1 ''/other?y=2'')"
  "takeWhile (\<lambda>c. c \<noteq> 63) (decode_latin1 ''/other?y=2'') = decode_latin1 ''/other''"
  "drop (Suc (length (decode_latin1 ''/other''))) (decode_latin1 ''/other?y=2'')
     = decode_latin1 ''y=2''"
  "decode_latin1 ''y=2'' \<noteq> []"
  by (simp_all add: decode_latin1_def)

lemma ex_app_request_fields:
  "url_fields (make_environ ex_app_request h p (decode_latin1 ''/app''))
     = Inr (decode_latin1 ''/app'', decode_latin1 ''/foo'', Some (decode_latin1 ''x=1''))"
proof -
  from make_environ_Inr [OF ex_app_request_headers ex_app_request_line,
      where sn = "decode_latin1 ''/app''" and h = h and p = p]
  obtain env where e: "make_environ ex_app_request h p (decode_latin1 ''/app'') = Inr env"
    by blast
  from make_environ_url [OF e ex_app_request_line]
  have "SCRIPT_NAME env = decode_latin1 ''/app'' \<and> PATH_INFO env = decode_latin1 ''/foo''
        \<and> QUERY_STRING env = Some (decode_latin1 ''x=1'')"
    by (auto simp: decode_latin1_def Let_def)
  then show ?thesis
    by (simp add: e url_fields_def)
qed

lemma ex_text_sock_fields:
  "inp ex_text_sock = ex_request" "host ex_text_sock = ex_host" "port ex_text_sock = PInt 80"
  "script_name ex_text_sock = []" "app ex_text_sock = AppObj True (\<lambda>env. ex_text_result)"
  "output' ex_text_sock = []" "write_results ex_text_sock = []"
  by (simp_all add: ex_text_sock_def init_socket_def)

lemma ex_text_result_fields:
  "on_call ex_text_result = [StartResponse ex_status ex_headers]"
  "pulls ex_text_result 0 = ([], Yield (PStr (decode_latin1 ''hello'')))"
  "has_close ex_text_result"
  by (simp_all add: ex_text_result_def)

lemma ex_text_sock_env:
  "\<exists>env. make_environ (inp ex_text_sock) (host ex_text_sock) (port ex_text_sock)
           (script_name ex_text_sock) = Inr env"
  using ex_request_ok
  by (cases "make_environ ex_request ex_host (PInt 80) []") (auto simp: ex_text_sock_fields)

lemma ex_text_sock_events:
  "run_events (on_call ex_text_result @ fst (pulls ex_text_result 0)) ex_text_sock
     = (ex_text_sock\<lparr>output' := ex_wire\<rparr>, None)"
  by (simp add: ex_text_result_fields ex_start_response ex_text_sock_fields)

lemma ex_text_chunk_truthy: "truthy (PStr (decode_latin1 ''hello''))"
  by (simp add: decode_latin1_def)

lemma ex_gen_sock_env:
  "\<exists>env. make_environ (inp ex_gen_sock) (host ex_gen_sock) (port ex_gen_sock)
           (script_name ex_gen_sock) = Inr env"
  using ex_request_ok
  by (cases "make_environ ex_request ex_host (PInt 80) []") (auto simp: ex_gen_sock_fields)

lemma ex_gen_result_fields:
  "on_call ex_gen_result = []"
  "pulls ex_gen_result 0
     = ([StartResponse ex_status ex_headers, WriteFn (PBytes ''world'')],
        Yield (PBytes ''hello ''))"
  "pulls ex_gen_result (Suc 0) = ([WriteFn (PBytes ''late'')], Yield (PBytes ''again''))"
  "pulls ex_gen_result 2 = ([], Raise StopIteration)"
  "has_close ex_gen_result"
  by (simp_all add: ex_gen_result_def ex_gen_pulls_def)

lemma ex_gen_sock_events:
  "run_events (on_call ex_gen_result @ fst (pulls ex_gen_result 0)) ex_gen_sock
     = (ex_gen_sock\<lparr>write_results := [PBytes ''world''], output' := ex_wire\<rparr>, None)"
  by (simp add: ex_gen_result_fields ex_start_response write_fn_def ex_gen_sock_fields)

lemma ex_gen_later_pulls:
  "\<forall>j. 0 < j \<and> j < 2 \<longrightarrow>
     pulls ex_gen_result j
       = (map WriteFn (if j = 1 then [PBytes ''late''] else []), Yield (PBytes ''again''))"
proof (intro allI impI)
  fix j :: nat
  assume "0 < j \<and> j < 2"
  then have "j = Suc 0" by arith
  then show "pulls ex_gen_result j
       = (map WriteFn (if j = 1 then [PBytes ''late''] else []), Yield (PBytes ''again''))"
    by (simp add: ex_gen_result_fields)
qed

section \<open>Properties of the registry and of the interceptor\<close>


lemma ex_conn_fields:
  "conn_host ex_conn = ex_host" "conn_port ex_conn = PInt 80" "real_connects ex_conn = 0"
  "conn_host ex_conn_str = ex_host" "conn_port ex_conn_str = PStr (decode_latin1 ''80'')"
  "real_connects ex_conn_str = 0"
  by (simp_all add: ex_conn_def ex_conn_str_def)

text \<open>
  Claim C6. Removing a key that has no entry leaves the registry as it is. Adding an
  entry and removing it at once leaves the key without an entry (the other keys as they
  were), so that \<^verbatim>\<open>get_app\<close> for an integer port finds nothing. Removing with no
  argument empties the registry.
\<close>

theorem registry_unregister:
  "(reg (h, p) = None \<longrightarrow> remove_wsgi_intercept [h, p] reg = Inr reg)
   \<and> (case remove_wsgi_intercept [h, p] (add_wsgi_intercept h p f sn reg) of
        Inl e \<Rightarrow> False
      | Inr reg' \<Rightarrow> reg' (h, p) = None \<and> (\<forall>k. k \<noteq> (h, p) \<longrightarrow> reg' k = reg k))
   \<and> (case remove_wsgi_intercept [h, PInt n] (add_wsgi_intercept h (PInt n) f sn reg) of
        Inl e \<Rightarrow> False
      | Inr reg' \<Rightarrow> get_app reg' h (PInt n) = Inr (NoneObj, None))
   \<and> remove_wsgi_intercept [] reg = Inr Map.empty"
  by (auto simp: add_wsgi_intercept_def get_app_def restrict_map_def dom_def)

theorem registry_unregister_witness:
  "(Map.empty :: registry) (ex_host, PInt 80) = None
   \<and> remove_wsgi_intercept [ex_host, PInt 80] Map.empty = Inr Map.empty
   \<and> remove_wsgi_intercept [ex_host, PInt 80]
         (add_wsgi_intercept ex_host (PInt 80) (\<lambda>_. ex_empty_app) [] Map.empty)
       = Inr Map.empty
   \<and> remove_wsgi_intercept []
         (add_wsgi_intercept ex_host (PInt 80) (\<lambda>_. ex_empty_app) [] Map.empty)
       = Inr Map.empty"
proof -
  let ?r = "add_wsgi_intercept ex_host (PInt 80) (\<lambda>_. ex_empty_app) [] Map.empty"
  have a: "(Map.empty :: registry) (ex_host, PInt 80) = None" by simp
  from registry_unregister [of Map.empty ex_host "PInt 80"] a
  have b: "remove_wsgi_intercept [ex_host, PInt 80] Map.empty = Inr Map.empty"
    by blast
  have c: "remove_wsgi_intercept [ex_host, PInt 80] ?r = Inr Map.empty"
    by (simp add: add_wsgi_intercept_def restrict_map_def fun_eq_iff)
  from registry_unregister [of ?r] have d: "remove_wsgi_intercept [] ?r = Inr Map.empty"
    by blast
  from a b c d show ?thesis by blast
qed



text \<open>
  Claim C10. When the registry has an entry for the address but its factory returns an
  object that counts as false (\<^verbatim>\<open>None\<close>, for one), \<^verbatim>\<open>connect\<close> is the real
  connector applied once to the unchanged connection: no fake socket is installed.
\<close>

theorem falsy_app_falls_through:
  assumes "py_int (conn_port c) = Inr n"
    and "reg (conn_host c, PInt n) = Some (f, sn)"
    and "\<not> app_truthy (f ())"
  shows "connect reg real_connect c = real_connect c
       \<and> connect reg stub_connect c
           = Inr (c\<lparr>sock := RealSock, real_connects := Suc (real_connects c)\<rparr>)"
  using assms by (auto simp: connect_def get_app_def stub_connect_def)

theorem falsy_app_falls_through_witness:
  "(add_wsgi_intercept ex_host (PInt 80) (\<lambda>_. NoneObj) [] Map.empty) (ex_host, PInt 80)
     = Some (\<lambda>_. NoneObj, [])
   \<and> connect (add_wsgi_intercept ex_host (PInt 80) (\<lambda>_. NoneObj) [] Map.empty)
         stub_connect ex_conn
       = Inr (ex_conn\<lparr>sock := RealSock, real_connects := Suc 0\<rparr>)"
proof -
  let ?r = "add_wsgi_intercept ex_host (PInt 80) (\<lambda>_. NoneObj) [] Map.empty"
  have p: "py_int (conn_port ex_conn) = Inr 80" by (simp add: ex_conn_fields)
  have b: "?r (conn_host ex_conn, PInt 80) = Some (\<lambda>_. NoneObj, [])"
    by (simp add: add_wsgi_intercept_def ex_conn_fields)
  from falsy_app_falls_through [where c = ex_conn and n = 80 and reg = ?r
      and f = "\<lambda>_. NoneObj" and sn = "[]" and real_connect = stub_connect] p b
  show ?thesis by (simp add: ex_conn_fields stub_connect_def)
qed



section \<open>Properties of the fake socket\<close>

text \<open>
  Claim C1. Let the request decode, and let the calls the application makes up to the end
  of the first pull succeed, leaving the socket \<open>s1\<close> whose collected
  \<^verbatim>\<open>write_fn\<close> data are the byte strings \<open>ws\<close>. Then \<^verbatim>\<open>makefile\<close> returns what
  \<^verbatim>\<open>start_response\<close> wrote, followed by the collected data \<open>ws\<close>, followed by:
  nothing when the first pull raised \<^verbatim>\<open>StopIteration\<close>; nothing when the first item
  counts as false, whatever the later pulls would give; and, when the first item is a
  non-empty chunk \<open>c0\<close>, that chunk and then the chunks of pulls 1 to \<open>n - 1\<close> in
  order, pull \<open>n\<close> being the one that raises \<^verbatim>\<open>StopIteration\<close>.
\<close>

theorem makefile_order:
  assumes env: "make_environ (inp s) (host s) (port s) (script_name s) = Inr env"
    and app: "app s = AppObj t f"
    and ev: "run_events (on_call (f env) @ fst (pulls (f env) 0)) s = (s1, None)"
    and wr: "write_results s1 = map PBytes ws"
  shows "(snd (pulls (f env) 0) = Raise StopIteration \<longrightarrow>
            map_option returned (makefile s) = Some (Inr (output' s1 @ concat ws)))
       \<and> (snd (pulls (f env) 0) = Yield g \<and> \<not> truthy g \<longrightarrow>
            map_option returned (makefile s) = Some (Inr (output' s1 @ concat ws)))
       \<and> (snd (pulls (f env) 0) = Yield (PBytes c0) \<and> c0 \<noteq> [] \<and> 0 < n
            \<and> (\<forall>j. 0 < j \<and> j < n \<longrightarrow>
                   pulls (f env) j = (map WriteFn (wr j), Yield (PBytes (cs j))))
            \<and> pulls (f env) n = (map WriteFn (wr n), Raise StopIteration) \<longrightarrow>
            map_option returned (makefile s)
              = Some (Inr (output' s1 @ concat ws @ c0 @ concat (map cs [1..<n]))))"
proof (intro conjI impI)
  assume "snd (pulls (f env) 0) = Raise StopIteration"
  then show "map_option returned (makefile s) = Some (Inr (output' s1 @ concat ws))"
    by (simp add: makefile_after_first_pull [OF env app ev wr] finish_def)
next
  assume "snd (pulls (f env) 0) = Yield g \<and> \<not> truthy g"
  then show "map_option returned (makefile s) = Some (Inr (output' s1 @ concat ws))"
    by (simp add: makefile_after_first_pull [OF env app ev wr] finish_def)
next
  assume h: "snd (pulls (f env) 0) = Yield (PBytes c0) \<and> c0 \<noteq> [] \<and> 0 < n
            \<and> (\<forall>j. 0 < j \<and> j < n \<longrightarrow>
                   pulls (f env) j = (map WriteFn (wr j), Yield (PBytes (cs j))))
            \<and> pulls (f env) n = (map WriteFn (wr n), Raise StopIteration)"
  then have le: "Suc 0 \<le> n" by simp
  from h have mid: "\<forall>j. Suc 0 \<le> j \<and> j < n \<longrightarrow>
      pulls (f env) j = (map WriteFn (wr j), Yield (PBytes (cs j)))"
    by (simp add: Suc_le_eq)
  from h have stop: "pulls (f env) n = (map WriteFn (wr n), Raise StopIteration)"
    by simp
  from h show "map_option returned (makefile s)
              = Some (Inr (output' s1 @ concat ws @ c0 @ concat (map cs [1..<n])))"
    by (simp add: makefile_after_first_pull [OF env app ev wr]
          drain_bytes [OF le stop mid] finish_def Let_def del: upt_Suc)
qed

theorem makefile_order_witness:
  "\<not> isl (make_environ (inp ex_gen_sock) (host ex_gen_sock) (port ex_gen_sock)
            (script_name ex_gen_sock))
   \<and> app ex_gen_sock = AppObj True (\<lambda>env. ex_gen_result)
   \<and> run_events (on_call ex_gen_result @ fst (pulls ex_gen_result 0)) ex_gen_sock
       = (ex_gen_sock\<lparr>write_results := [PBytes ''world''], output' := ex_wire\<rparr>, None)
   \<and> pulls ex_gen_result 0
       = ([StartResponse ex_status ex_headers, WriteFn (PBytes ''world'')],
          Yield (PBytes ''hello ''))
   \<and> pulls ex_gen_result 1 = ([WriteFn (PBytes ''late'')], Yield (PBytes ''again''))
   \<and> pulls ex_gen_result 2 = ([], Raise StopIteration)
   \<and> map_option returned (makefile ex_gen_sock) = Some (Inr (ex_wire @ ''worldhello again''))"
proof -
  let ?s1 = "ex_gen_sock\<lparr>write_results := [PBytes ''world''], output' := ex_wire\<rparr>"
  let ?wr = "\<lambda>j::nat. if j = 1 then [PBytes ''late''] else []"
  let ?cs = "\<lambda>j::nat. ''again''"
  have ok: "\<not> isl (make_environ (inp ex_gen_sock) (host ex_gen_sock) (port ex_gen_sock)
            (script_name ex_gen_sock))"
    by (simp add: ex_gen_sock_fields ex_request_ok)
  then obtain env where env: "make_environ (inp ex_gen_sock) (host ex_gen_sock)
      (port ex_gen_sock) (script_name ex_gen_sock) = Inr env"
    by (cases "make_environ (inp ex_gen_sock) (host ex_gen_sock) (port ex_gen_sock)
      (script_name ex_gen_sock)") auto
  have app: "app ex_gen_sock = AppObj True (\<lambda>env. ex_gen_result)"
    by (simp add: ex_gen_sock_fields)
  have p0: "pulls ex_gen_result 0
       = ([StartResponse ex_status ex_headers, WriteFn (PBytes ''world'')],
          Yield (PBytes ''hello ''))"
    by (simp add: ex_gen_result_def ex_gen_pulls_def)
  have p1: "pulls ex_gen_result 1 = ([WriteFn (PBytes ''late'')], Yield (PBytes ''again''))"
    by (simp add: ex_gen_result_def ex_gen_pulls_def)
  have p2: "pulls ex_gen_result 2 = ([], Raise StopIteration)"
    by (simp add: ex_gen_result_def ex_gen_pulls_def)
  have ev: "run_events (on_call ex_gen_result @ fst (pulls ex_gen_result 0)) ex_gen_sock
       = (?s1, None)"
    by (simp add: p0 ex_start_response write_fn_def ex_gen_sock_fields)
       (simp add: ex_gen_result_def ex_start_response write_fn_def ex_gen_sock_fields)
  have wr: "write_results ?s1 = map PBytes [''world'']" by simp
  have mid: "\<forall>j. 0 < j \<and> j < 2 \<longrightarrow>
      pulls ex_gen_result j = (map WriteFn (?wr j), Yield (PBytes (?cs j)))"
  proof (intro allI impI)
    fix j :: nat
    assume "0 < j \<and> j < 2"
    then have "j = 1" by arith
    with p1 show "pulls ex_gen_result j = (map WriteFn (?wr j), Yield (PBytes (?cs j)))"
      by simp
  qed
  have stop: "pulls ex_gen_result 2 = (map WriteFn (?wr 2), Raise StopIteration)"
    by (simp add: p2)
  have "map_option returned (makefile ex_gen_sock)
          = Some (Inr (output' ?s1 @ concat [''world''] @ ''hello '' @ concat (map ?cs [1..<2])))"
    using makefile_order [where s = ex_gen_sock and env = env and t = True
        and f = "\<lambda>env. ex_gen_result" and ?s1.0 = ?s1 and ws = "[''world'']"
        and ?c0.0 = "''hello ''" and n = 2 and wr = ?wr and cs = ?cs,
        OF env app] ev wr p0 mid stop
    by simp
  then have r: "map_option returned (makefile ex_gen_sock)
                  = Some (Inr (ex_wire @ ''worldhello again''))"
    by (simp add: numeral_2_eq_2)
  from ok app ev p0 p1 p2 r show ?thesis by blast
qed



text \<open>
  Claim C5. When \<^verbatim>\<open>make_environ\<close> returns a context for a request line with the
  fields method, URL and protocol: if the URL starts with the mount path, the mount path
  is \<^verbatim>\<open>SCRIPT_NAME\<close> and is taken off the URL; if not, \<^verbatim>\<open>SCRIPT_NAME\<close> is empty
  and the URL is kept whole. What is left is split at the first question mark (code
  point 63): \<^verbatim>\<open>PATH_INFO\<close> is the part before it, the query string the part after
  it, present as \<^verbatim>\<open>QUERY_STRING\<close> only when not empty. Whether decoding raises does
  not depend on the mount path. With mount path \<^verbatim>\<open>/app\<close> and URL
  \<^verbatim>\<open>/app/foo?x=1\<close> the path is \<^verbatim>\<open>/foo\<close> and the query string \<^verbatim>\<open>x=1\<close>.
\<close>

theorem mount_path_stripping:
  "(make_environ inp0 h p sn = Inr env
      \<and> split_all 32 (decode_latin1 (fst (readline inp0))) = [meth, url, protocol] \<longrightarrow>
        SCRIPT_NAME env = (if prefix sn url then sn else [])
      \<and> PATH_INFO env
          = takeWhile (\<lambda>c. c \<noteq> 63) (if prefix sn url then drop (length sn) url else url)
      \<and> QUERY_STRING env
          = (let q = drop (Suc (length (PATH_INFO env)))
                       (if prefix sn url then drop (length sn) url else url)
             in if q = [] then None else Some q))
   \<and> isl (make_environ inp0 h p sn) = isl (make_environ inp0 h p sn')
   \<and> url_fields (make_environ ex_app_request h p (decode_latin1 ''/app''))
       = Inr (decode_latin1 ''/app'', decode_latin1 ''/foo'', Some (decode_latin1 ''x=1''))"
proof (intro conjI impI)
  assume a: "make_environ inp0 h p sn = Inr env
      \<and> split_all 32 (decode_latin1 (fst (readline inp0))) = [meth, url, protocol]"
  then have ok: "make_environ inp0 h p sn = Inr env"
    and sp: "split_all 32 (decode_latin1 (fst (readline inp0))) = [meth, url, protocol]"
    by simp_all
  note u = make_environ_url [OF ok sp]
  from u show "SCRIPT_NAME env = (if prefix sn url then sn else [])" by blast
  from u show "PATH_INFO env
          = takeWhile (\<lambda>c. c \<noteq> 63) (if prefix sn url then drop (length sn) url else url)"
    by blast
  from u show "QUERY_STRING env
          = (let q = drop (Suc (length (PATH_INFO env)))
                       (if prefix sn url then drop (length sn) url else url)
             in if q = [] then None else Some q)"
    by blast
next
  show "isl (make_environ inp0 h p sn) = isl (make_environ inp0 h p sn')"
    by (rule make_environ_isl)
next
  show "url_fields (make_environ ex_app_request h p (decode_latin1 ''/app''))
       = Inr (decode_latin1 ''/app'', decode_latin1 ''/foo'', Some (decode_latin1 ''x=1''))"
    by (rule ex_app_request_fields)
qed

theorem mount_path_stripping_witness:
  "split_all 32 (decode_latin1 (fst (readline ex_other_request)))
     = [decode_latin1 ''GET'', decode_latin1 ''/other?y=2'', decode_latin1 (''HTTP/1.1'' @ CRLF)]
   \<and> \<not> prefix (decode_latin1 ''/app'') (decode_latin1 ''/other?y=2'')
   \<and> url_fields (make_environ ex_other_request ex_host (PInt 80) (decode_latin1 ''/app''))
       = Inr ([], decode_latin1 ''/other'', Some (decode_latin1 ''y=2''))
   \<and> split_all 32 (decode_latin1 (fst (readline ex_app_request)))
       = [decode_latin1 ''GET'', decode_latin1 ''/app/foo?x=1'', decode_latin1 (''HTTP/1.1'' @ CRLF)]
   \<and> prefix (decode_latin1 ''/app'') (decode_latin1 ''/app/foo?x=1'')
   \<and> url_fields (make_environ ex_app_request ex_host (PInt 80) (decode_latin1 ''/app''))
       = Inr (decode_latin1 ''/app'', decode_latin1 ''/foo'', Some (decode_latin1 ''x=1''))"
proof -
  from make_environ_Inr [OF ex_other_request_headers ex_other_request_line,
      where sn = "decode_latin1 ''/app''" and h = ex_host and p = "PInt 80"]
  obtain env where e: "make_environ ex_other_request ex_host (PInt 80) (decode_latin1 ''/app'')
      = Inr env"
    by blast
  from mount_path_stripping [where ?inp0.0 = ex_other_request and h = ex_host and p = "PInt 80"
      and sn = "decode_latin1 ''/app''" and env = env and meth = "decode_latin1 ''GET''"
      and url = "decode_latin1 ''/other?y=2''" and protocol = "decode_latin1 (''HTTP/1.1'' @ CRLF)"]
    e ex_other_request_line
  have "SCRIPT_NAME env = [] \<and> PATH_INFO env = decode_latin1 ''/other''
        \<and> QUERY_STRING env = Some (decode_latin1 ''y=2'')"
    by (auto simp: decode_latin1_def Let_def)
  then have a: "url_fields (make_environ ex_other_request ex_host (PInt 80)
                  (decode_latin1 ''/app''))
       = Inr ([], decode_latin1 ''/other'', Some (decode_latin1 ''y=2''))"
    by (simp add: e url_fields_def)
  from make_environ_Inr [OF ex_app_request_headers ex_app_request_line,
      where sn = "decode_latin1 ''/app''" and h = ex_host and p = "PInt 80"]
  obtain env' where e': "make_environ ex_app_request ex_host (PInt 80) (decode_latin1 ''/app'')
      = Inr env'"
    by blast
  from mount_path_stripping [where ?inp0.0 = ex_app_request and h = ex_host and p = "PInt 80"
      and sn = "decode_latin1 ''/app''" and env = env' and meth = "decode_latin1 ''GET''"
      and url = "decode_latin1 ''/app/foo?x=1''"
      and protocol = "decode_latin1 (''HTTP/1.1'' @ CRLF)"]
    e' ex_app_request_line
  have "SCRIPT_NAME env' = decode_latin1 ''/app'' \<and> PATH_INFO env' = decode_latin1 ''/foo''
        \<and> QUERY_STRING env' = Some (decode_latin1 ''x=1'')"
    by (auto simp: decode_latin1_def Let_def)
  then have b: "url_fields (make_environ ex_app_request ex_host (PInt 80)
                  (decode_latin1 ''/app''))
       = Inr (decode_latin1 ''/app'', decode_latin1 ''/foo'', Some (decode_latin1 ''x=1''))"
    by (simp add: e' url_fields_def)
  from ex_other_request_line ex_other_url(1) a ex_app_request_line ex_app_url(1) b
  show ?thesis by blast
qed

text \<open>
  Claim C7, as far as the code goes. \<^verbatim>\<open>sendall\<close> appends bytes to the accumulated
  input. Given a \<^verbatim>\<open>str\<close> it raises \<^verbatim>\<open>AttributeError\<close> and accumulates nothing:
  the handler of the \<^verbatim>\<open>TypeError\<close> calls \<^verbatim>\<open>text.decode\<close>, which a
  \<^verbatim>\<open>str\<close> does not have.
\<close>

theorem sendall_bytes_or_text:
  "sendall (PBytes b) s = (s\<lparr>inp := inp s @ b\<rparr>, None)
   \<and> sendall (PStr u) s = (s, Some AttributeError)"
  by (simp add: sendall_def)

text \<open>
  Claim C3, on the fatal path. The application's result object has a \<^verbatim>\<open>close\<close>
  method and its first item is a \<^verbatim>\<open>str\<close>: \<^verbatim>\<open>makefile\<close> raises
  \<^verbatim>\<open>TypeError\<close> and \<^verbatim>\<open>close\<close> is not invoked.
\<close>

theorem close_skipped_on_type_error:
  "has_close ex_text_result
   \<and> pulls ex_text_result 0 = ([], Yield (PStr (decode_latin1 ''hello'')))
   \<and> close_and_result (makefile ex_text_sock) = Some (False, Inl TypeError)"
proof -
  from ex_text_sock_env obtain env where env: "make_environ (inp ex_text_sock)
      (host ex_text_sock) (port ex_text_sock) (script_name ex_text_sock) = Inr env"
    by blast
  have wr: "write_results (ex_text_sock\<lparr>output' := ex_wire\<rparr>) = map PBytes []"
    by (simp add: ex_text_sock_fields)
  have "close_and_result (makefile ex_text_sock) = Some (False, Inl TypeError)"
    by (simp add: makefile_after_first_pull [OF env ex_text_sock_fields(5)
          ex_text_sock_events wr] ex_text_result_fields ex_text_chunk_truthy
          close_and_result_def raised_def Let_def decode_latin1_def)
  with ex_text_result_fields show ?thesis by blast
qed

text \<open>
  Claim C3, amended. When \<^verbatim>\<open>makefile\<close> ends, \<^verbatim>\<open>close\<close> has been invoked exactly
  when the result object has the method and \<^verbatim>\<open>makefile\<close> returned the response.
  Path by path, for an application whose calls up to the end of the first pull succeed:
  \<^verbatim>\<open>close\<close> is invoked (when present) and the response returned when the first pull
  raises \<^verbatim>\<open>StopIteration\<close>, when the first item counts as false, and when a later
  pull raises \<^verbatim>\<open>StopIteration\<close> after chunks of bytes; \<^verbatim>\<open>close\<close> is not invoked
  and the exception leaves \<^verbatim>\<open>makefile\<close> when the first or a later item is not bytes
  (\<^verbatim>\<open>TypeError\<close>) and when a pull raises any other exception.
\<close>

theorem close_after_draining:
  assumes env: "make_environ (inp s) (host s) (port s) (script_name s) = Inr env"
    and app: "app s = AppObj t f"
  shows "(makefile s = Some res \<longrightarrow>
            close_called res = (has_close (f env) \<and> \<not> isl (returned res)))
       \<and> (run_events (on_call (f env) @ fst (pulls (f env) 0)) s = (s1, None)
            \<and> write_results s1 = map PBytes ws \<longrightarrow>
            (snd (pulls (f env) 0) = Raise StopIteration \<longrightarrow>
               close_and_result (makefile s)
                 = Some (has_close (f env), Inr (output' s1 @ concat ws)))
          \<and> (snd (pulls (f env) 0) = Yield g \<and> \<not> truthy g \<longrightarrow>
               close_and_result (makefile s)
                 = Some (has_close (f env), Inr (output' s1 @ concat ws)))
          \<and> (snd (pulls (f env) 0) = Yield g \<and> truthy g \<and> (\<forall>b. g \<noteq> PBytes b) \<longrightarrow>
               close_and_result (makefile s) = Some (False, Inl TypeError))
          \<and> (snd (pulls (f env) 0) = Yield (PBytes c0) \<and> c0 \<noteq> [] \<and> 0 < n
               \<and> (\<forall>j. 0 < j \<and> j < n \<longrightarrow>
                      pulls (f env) j = (map WriteFn (wr j), Yield (PBytes (cs j)))) \<longrightarrow>
               (pulls (f env) n = (map WriteFn (wr n), Raise e) \<longrightarrow>
                  close_and_result (makefile s)
                    = Some (if e = StopIteration
                            then (has_close (f env),
                                  Inr (output' s1 @ concat ws @ c0 @ concat (map cs [1..<n])))
                            else (False, Inl e)))
             \<and> (pulls (f env) n = (map WriteFn (wr n), Yield g) \<and> (\<forall>b. g \<noteq> PBytes b) \<longrightarrow>
                  close_and_result (makefile s) = Some (False, Inl TypeError))))"
proof (intro conjI impI)
  assume "makefile s = Some res"
  then show "close_called res = (has_close (f env) \<and> \<not> isl (returned res))"
    by (rule makefile_close_iff_returns [OF env app])
next
  assume h: "run_events (on_call (f env) @ fst (pulls (f env) 0)) s = (s1, None)
            \<and> write_results s1 = map PBytes ws"
    and p: "snd (pulls (f env) 0) = Raise StopIteration"
  from h have ev: "run_events (on_call (f env) @ fst (pulls (f env) 0)) s = (s1, None)"
    and wr: "write_results s1 = map PBytes ws" by simp_all
  from p show "close_and_result (makefile s)
                 = Some (has_close (f env), Inr (output' s1 @ concat ws))"
    by (simp add: makefile_after_first_pull [OF env app ev wr] finish_def close_and_result_def)
next
  assume h: "run_events (on_call (f env) @ fst (pulls (f env) 0)) s = (s1, None)
            \<and> write_results s1 = map PBytes ws"
    and p: "snd (pulls (f env) 0) = Yield g \<and> \<not> truthy g"
  from h have ev: "run_events (on_call (f env) @ fst (pulls (f env) 0)) s = (s1, None)"
    and wr: "write_results s1 = map PBytes ws" by simp_all
  from p show "close_and_result (makefile s)
                 = Some (has_close (f env), Inr (output' s1 @ concat ws))"
    by (simp add: makefile_after_first_pull [OF env app ev wr] finish_def close_and_result_def)
next
  assume h: "run_events (on_call (f env) @ fst (pulls (f env) 0)) s = (s1, None)
            \<and> write_results s1 = map PBytes ws"
    and p: "snd (pulls (f env) 0) = Yield g \<and> truthy g \<and> (\<forall>b. g \<noteq> PBytes b)"
  from h have ev: "run_events (on_call (f env) @ fst (pulls (f env) 0)) s = (s1, None)"
    and wr: "write_results s1 = map PBytes ws" by simp_all
  from p have w: "bio_write buf g = Inl TypeError" for buf
    by (cases g) simp_all
  from p show "close_and_result (makefile s) = Some (False, Inl TypeError)"
    by (simp add: makefile_after_first_pull [OF env app ev wr] w raised_def
          close_and_result_def)
next
  assume h: "run_events (on_call (f env) @ fst (pulls (f env) 0)) s = (s1, None)
            \<and> write_results s1 = map PBytes ws"
    and p: "snd (pulls (f env) 0) = Yield (PBytes c0) \<and> c0 \<noteq> [] \<and> 0 < n
               \<and> (\<forall>j. 0 < j \<and> j < n \<longrightarrow>
                      pulls (f env) j = (map WriteFn (wr j), Yield (PBytes (cs j))))"
    and stop: "pulls (f env) n = (map WriteFn (wr n), Raise e)"
  from h have ev: "run_events (on_call (f env) @ fst (pulls (f env) 0)) s = (s1, None)"
    and wr: "write_results s1 = map PBytes ws" by simp_all
  from p have le: "Suc 0 \<le> n" by simp
  from p have mid: "\<forall>j. Suc 0 \<le> j \<and> j < n \<longrightarrow>
      pulls (f env) j = (map WriteFn (wr j), Yield (PBytes (cs j)))"
    by (simp add: Suc_le_eq)
  from p show "close_and_result (makefile s)
                    = Some (if e = StopIteration
                            then (has_close (f env),
                                  Inr (output' s1 @ concat ws @ c0 @ concat (map cs [1..<n])))
                            else (False, Inl e))"
    by (simp add: makefile_after_first_pull [OF env app ev wr]
          drain_bytes [OF le stop mid] finish_def raised_def Let_def close_and_result_def
          del: upt_Suc)
next
  assume h: "run_events (on_call (f env) @ fst (pulls (f env) 0)) s = (s1, None)
            \<and> write_results s1 = map PBytes ws"
    and p: "snd (pulls (f env) 0) = Yield (PBytes c0) \<and> c0 \<noteq> [] \<and> 0 < n
               \<and> (\<forall>j. 0 < j \<and> j < n \<longrightarrow>
                      pulls (f env) j = (map WriteFn (wr j), Yield (PBytes (cs j))))"
    and bad: "pulls (f env) n = (map WriteFn (wr n), Yield g) \<and> (\<forall>b. g \<noteq> PBytes b)"
  from h have ev: "run_events (on_call (f env) @ fst (pulls (f env) 0)) s = (s1, None)"
    and wr: "write_results s1 = map PBytes ws" by simp_all
  from p have le: "Suc 0 \<le> n" by simp
  from p have mid: "\<forall>j. Suc 0 \<le> j \<and> j < n \<longrightarrow>
      pulls (f env) j = (map WriteFn (wr j), Yield (PBytes (cs j)))"
    by (simp add: Suc_le_eq)
  from bad have b1: "pulls (f env) n = (map WriteFn (wr n), Yield g)"
    and b2: "\<forall>b. g \<noteq> PBytes b" by simp_all
  from p show "close_and_result (makefile s) = Some (False, Inl TypeError)"
    by (simp add: makefile_after_first_pull [OF env app ev wr]
          drain_bad_chunk [OF le b1 b2 mid] raised_def Let_def close_and_result_def
          del: upt_Suc)
qed

theorem close_after_draining_witness:
  "has_close ex_gen_result
   \<and> pulls ex_gen_result 2 = ([], Raise StopIteration)
   \<and> close_and_result (makefile ex_gen_sock)
       = Some (True, Inr (ex_wire @ ''worldhello again''))
   \<and> has_close ex_text_result
   \<and> truthy (PStr (decode_latin1 ''hello''))
   \<and> close_and_result (makefile ex_text_sock) = Some (False, Inl TypeError)"
proof -
  let ?s1 = "ex_gen_sock\<lparr>write_results := [PBytes ''world''], output' := ex_wire\<rparr>"
  let ?wr = "\<lambda>j::nat. if j = 1 then [PBytes ''late''] else []"
  let ?cs = "\<lambda>j::nat. ''again''"
  from ex_gen_sock_env obtain env where env: "make_environ (inp ex_gen_sock)
      (host ex_gen_sock) (port ex_gen_sock) (script_name ex_gen_sock) = Inr env"
    by blast
  have wr: "write_results ?s1 = map PBytes [''world'']" by simp
  have stop: "pulls ex_gen_result 2 = (map WriteFn (?wr 2), Raise StopIteration)"
    by (simp add: ex_gen_result_fields)
  from close_after_draining [OF env ex_gen_sock_fields(5), where ?s1.0 = ?s1
      and ws = "[''world'']" and ?c0.0 = "''hello ''" and n = 2 and wr = ?wr and cs = ?cs
      and e = StopIteration]
    ex_gen_sock_events wr ex_gen_result_fields ex_gen_later_pulls stop
  have a: "close_and_result (makefile ex_gen_sock)
       = Some (True, Inr (ex_wire @ ''worldhello again''))"
    by (simp add: numeral_2_eq_2)
  from ex_text_sock_env obtain env' where env': "make_environ (inp ex_text_sock)
      (host ex_text_sock) (port ex_text_sock) (script_name ex_text_sock) = Inr env'"
    by blast
  have wr': "write_results (ex_text_sock\<lparr>output' := ex_wire\<rparr>) = map PBytes []"
    by (simp add: ex_text_sock_fields)
  from close_after_draining [OF env' ex_text_sock_fields(5),
      where ?s1.0 = "ex_text_sock\<lparr>output' := ex_wire\<rparr>" and ws = "[]"
      and g = "PStr (decode_latin1 ''hello'')"]
    ex_text_sock_events wr' ex_text_result_fields ex_text_chunk_truthy
  have b: "close_and_result (makefile ex_text_sock) = Some (False, Inl TypeError)"
    by simp
  from a b ex_gen_result_fields ex_text_result_fields ex_text_chunk_truthy
  show ?thesis by blast
qed

text \<open>
  Claim C8. The response \<^verbatim>\<open>makefile\<close> returns (or the exception it raises, or its
  not returning) is the same as for the application with every \<^verbatim>\<open>write_fn\<close> call of
  the second and later pulls removed. In the regular case (the first item a non-empty
  chunk, then chunks up to a pull \<open>n\<close> that raises \<^verbatim>\<open>StopIteration\<close>) the data
  \<open>wr j\<close> passed to \<^verbatim>\<open>write_fn\<close> during the pulls 1 to \<open>n\<close> end up in
  \<^verbatim>\<open>write_results\<close>, after the data \<open>ws\<close> collected before, while the response
  holds \<open>ws\<close> once, between what \<^verbatim>\<open>start_response\<close> wrote and the first chunk,
  and none of the later data.
\<close>

theorem late_writes_not_sent:
  "map_option returned (makefile (s\<lparr>app := without_late_writes (app s)\<rparr>))
     = map_option returned (makefile s)
   \<and> (make_environ (inp s) (host s) (port s) (script_name s) = Inr env
        \<and> app s = AppObj t f
        \<and> run_events (on_call (f env) @ fst (pulls (f env) 0)) s = (s1, None)
        \<and> write_results s1 = map PBytes ws
        \<and> snd (pulls (f env) 0) = Yield (PBytes c0) \<and> c0 \<noteq> [] \<and> 0 < n
        \<and> (\<forall>j. 0 < j \<and> j < n \<longrightarrow>
               pulls (f env) j = (map WriteFn (wr j), Yield (PBytes (cs j))))
        \<and> pulls (f env) n = (map WriteFn (wr n), Raise StopIteration) \<longrightarrow>
      buffer_and_result (makefile s)
        = Some (map PBytes ws @ concat (map wr [1..<Suc n]),
                Inr (output' s1 @ concat ws @ c0 @ concat (map cs [1..<n]))))"
proof (intro conjI impI)
  show "map_option returned (makefile (s\<lparr>app := without_late_writes (app s)\<rparr>))
     = map_option returned (makefile s)"
    by (rule makefile_without_late_writes)
next
  assume h: "make_environ (inp s) (host s) (port s) (script_name s) = Inr env
        \<and> app s = AppObj t f
        \<and> run_events (on_call (f env) @ fst (pulls (f env) 0)) s = (s1, None)
        \<and> write_results s1 = map PBytes ws
        \<and> snd (pulls (f env) 0) = Yield (PBytes c0) \<and> c0 \<noteq> [] \<and> 0 < n
        \<and> (\<forall>j. 0 < j \<and> j < n \<longrightarrow>
               pulls (f env) j = (map WriteFn (wr j), Yield (PBytes (cs j))))
        \<and> pulls (f env) n = (map WriteFn (wr n), Raise StopIteration)"
  then have env: "make_environ (inp s) (host s) (port s) (script_name s) = Inr env"
    and app: "app s = AppObj t f"
    and ev: "run_events (on_call (f env) @ fst (pulls (f env) 0)) s = (s1, None)"
    and wr: "write_results s1 = map PBytes ws"
    and stop: "pulls (f env) n = (map WriteFn (wr n), Raise StopIteration)"
    by simp_all
  from h have le: "Suc 0 \<le> n" by simp
  from h have mid: "\<forall>j. Suc 0 \<le> j \<and> j < n \<longrightarrow>
      pulls (f env) j = (map WriteFn (wr j), Yield (PBytes (cs j)))"
    by (simp add: Suc_le_eq)
  from h show "buffer_and_result (makefile s)
        = Some (map PBytes ws @ concat (map wr [1..<Suc n]),
                Inr (output' s1 @ concat ws @ c0 @ concat (map cs [1..<n])))"
    by (simp add: makefile_after_first_pull [OF env app ev wr]
          drain_bytes [OF le stop mid] finish_def Let_def buffer_and_result_def wr
          del: upt_Suc)
qed

theorem late_writes_not_sent_witness:
  "pulls ex_gen_result (Suc 0) = ([WriteFn (PBytes ''late'')], Yield (PBytes ''again''))
   \<and> pulls ex_gen_result 2 = ([], Raise StopIteration)
   \<and> buffer_and_result (makefile ex_gen_sock)
       = Some ([PBytes ''world'', PBytes ''late''], Inr (ex_wire @ ''worldhello again''))
   \<and> map_option returned (makefile (ex_gen_sock\<lparr>app := without_late_writes (app ex_gen_sock)\<rparr>))
       = Some (Inr (ex_wire @ ''worldhello again''))"
proof -
  let ?s1 = "ex_gen_sock\<lparr>write_results := [PBytes ''world''], output' := ex_wire\<rparr>"
  let ?wr = "\<lambda>j::nat. if j = 1 then [PBytes ''late''] else []"
  let ?cs = "\<lambda>j::nat. ''again''"
  from ex_gen_sock_env obtain env where env: "make_environ (inp ex_gen_sock)
      (host ex_gen_sock) (port ex_gen_sock) (script_name ex_gen_sock) = Inr env"
    by blast
  have wr: "write_results ?s1 = map PBytes [''world'']" by simp
  have stop: "pulls ex_gen_result 2 = (map WriteFn (?wr 2), Raise StopIteration)"
    by (simp add: ex_gen_result_fields)
  note t = late_writes_not_sent [where s = ex_gen_sock and env = env and t = True
      and f = "\<lambda>env. ex_gen_result" and ?s1.0 = ?s1 and ws = "[''world'']"
      and ?c0.0 = "''hello ''" and n = 2 and wr = ?wr and cs = ?cs]
  from t env ex_gen_sock_fields(5) ex_gen_sock_events wr ex_gen_result_fields
    ex_gen_later_pulls stop
  have a: "buffer_and_result (makefile ex_gen_sock)
       = Some ([PBytes ''world'', PBytes ''late''], Inr (ex_wire @ ''worldhello again''))"
    by (simp add: numeral_2_eq_2)
  then have "map_option returned (makefile ex_gen_sock)
       = Some (Inr (ex_wire @ ''worldhello again''))"
    by (auto simp: buffer_and_result_def)
  with t have b: "map_option returned
        (makefile (ex_gen_sock\<lparr>app := without_late_writes (app ex_gen_sock)\<rparr>))
       = Some (Inr (ex_wire @ ''worldhello again''))"
    by simp
  from a b ex_gen_result_fields show ?thesis by blast
qed

end
